theory Spec2Isabelle
  imports Main
begin

section \<open>Byte strings and UTF-8, as the Go runtime reads them\<close>

text \<open>
  A Go \<^verbatim>\<open>string\<close> is a sequence of bytes, not necessarily valid UTF-8; it is modelled
  as a \<^typ>\<open>string\<close> (a list of 8-bit characters).  A slice is \<^verbatim>\<open>nil\<close> or holds a list, a
  pointer is \<^verbatim>\<open>nil\<close> or points to an object, and \<^verbatim>\<open>encoding/json\<close> tells a \<^verbatim>\<open>nil\<close> slice
  (written \<^verbatim>\<open>null\<close>) from an empty one (written \<^verbatim>\<open>[]\<close>), so both are options.
\<close>

type_synonym 'a slice = "'a list option"

type_synonym bytes = "char list option"

definition byte :: "char \<Rightarrow> nat" where
  "byte c = of_char c"

definition RuneError :: nat where
  "RuneError = 0xFFFD"

definition MaxRune :: nat where
  "MaxRune = 0x10FFFF"

text \<open>
  \<^verbatim>\<open>utf8.DecodeRune\<close>: the first rune of the input and the number of bytes it takes.  A
  malformed or truncated encoding yields \<^verbatim>\<open>(RuneError, 1)\<close>, the empty input
  \<^verbatim>\<open>(RuneError, 0)\<close>.  The second byte of a three- or four-byte encoding is checked
  against the accept range of its lead byte, which excludes overlong forms, surrogates
  and values past \<^verbatim>\<open>MaxRune\<close>; masks and shifts are written as \<open>mod\<close> and multiplication.
\<close>

definition is_cont :: "char \<Rightarrow> bool" where
  "is_cont c \<longleftrightarrow> 0x80 \<le> byte c \<and> byte c \<le> 0xBF"

definition accept_lo :: "nat \<Rightarrow> nat" where
  "accept_lo b0 = (if b0 = 0xE0 then 0xA0 else if b0 = 0xF0 then 0x90 else 0x80)"

definition accept_hi :: "nat \<Rightarrow> nat" where
  "accept_hi b0 = (if b0 = 0xED then 0x9F else if b0 = 0xF4 then 0x8F else 0xBF)"

definition accepts :: "nat \<Rightarrow> char \<Rightarrow> bool" where
  "accepts b0 c \<longleftrightarrow> accept_lo b0 \<le> byte c \<and> byte c \<le> accept_hi b0"

fun DecodeRune :: "string \<Rightarrow> nat \<times> nat" where
  "DecodeRune [] = (RuneError, 0)"
| "DecodeRune (c0 # cs) =
     (let b0 = byte c0 in
      if b0 < 0x80 then (b0, 1)
      else if 0xC2 \<le> b0 \<and> b0 \<le> 0xDF then
        (case cs of
           c1 # _ \<Rightarrow>
             if is_cont c1 then ((b0 mod 32) * 64 + byte c1 mod 64, 2) else (RuneError, 1)
         | _ \<Rightarrow> (RuneError, 1))
      else if 0xE0 \<le> b0 \<and> b0 \<le> 0xEF then
        (case cs of
           c1 # c2 # _ \<Rightarrow>
             if accepts b0 c1 \<and> is_cont c2
             then ((b0 mod 16) * 4096 + (byte c1 mod 64) * 64 + byte c2 mod 64, 3)
             else (RuneError, 1)
         | _ \<Rightarrow> (RuneError, 1))
      else if 0xF0 \<le> b0 \<and> b0 \<le> 0xF4 then
        (case cs of
           c1 # c2 # c3 # _ \<Rightarrow>
             if accepts b0 c1 \<and> is_cont c2 \<and> is_cont c3
             then ((b0 mod 8) * 262144 + (byte c1 mod 64) * 4096
                   + (byte c2 mod 64) * 64 + byte c3 mod 64, 4)
             else (RuneError, 1)
         | _ \<Rightarrow> (RuneError, 1))
      else (RuneError, 1))"

text \<open>
  \<^verbatim>\<open>utf8.AppendRune\<close>: the UTF-8 encoding of a rune; a surrogate or a value past
  \<^verbatim>\<open>MaxRune\<close> is written as the encoding of \<^verbatim>\<open>RuneError\<close>.
\<close>

definition encode3 :: "nat \<Rightarrow> string" where
  "encode3 r = [char_of (0xE0 + r div 4096), char_of (0x80 + (r div 64) mod 64),
                char_of (0x80 + r mod 64)]"

definition EncodeRune :: "nat \<Rightarrow> string" where
  "EncodeRune r =
     (if r \<le> 0x7F then [char_of r]
      else if r \<le> 0x7FF then [char_of (0xC0 + r div 64), char_of (0x80 + r mod 64)]
      else if MaxRune < r \<or> (0xD800 \<le> r \<and> r \<le> 0xDFFF) then encode3 RuneError
      else if r \<le> 0xFFFF then encode3 r
      else [char_of (0xF0 + r div 262144), char_of (0x80 + (r div 4096) mod 64),
            char_of (0x80 + (r div 64) mod 64), char_of (0x80 + r mod 64)])"

text \<open>
  A string is valid UTF-8 when decoding never meets a malformed byte
  (\<^verbatim>\<open>utf8.ValidString\<close>), and \<open>ToValidUTF8\<close> is the string with every malformed byte
  replaced by the encoding of \<^verbatim>\<open>RuneError\<close>, which is what \<^verbatim>\<open>encoding/json\<close> makes of it.
\<close>

fun ValidString :: "string \<Rightarrow> bool" where
  "ValidString [] = True"
| "ValidString (c # cs) =
     (case DecodeRune (c # cs) of
        (r, sz) \<Rightarrow>
          if r = RuneError \<and> sz = 1 then False
          else ValidString (drop (sz - 1) cs))"

fun ToValidUTF8 :: "string \<Rightarrow> string" where
  "ToValidUTF8 [] = []"
| "ToValidUTF8 (c # cs) =
     (case DecodeRune (c # cs) of
        (r, sz) \<Rightarrow>
          if r = RuneError \<and> sz = 1 then EncodeRune RuneError @ ToValidUTF8 cs
          else take sz (c # cs) @ ToValidUTF8 (drop (sz - 1) cs))"

section \<open>JSON text, as \<^verbatim>\<open>encoding/json\<close> writes and reads it\<close>

text \<open>
  \<^verbatim>\<open>json.Marshal\<close>, \<^verbatim>\<open>json.Unmarshal\<close> and \<^verbatim>\<open>url.QueryEscape\<close> belong to the Go standard
  library, not to the repository.  The client's behaviour on the wire is theirs, so they
  are modelled here for the types the client passes to them: \<^verbatim>\<open>*Entity\<close>,
  \<^verbatim>\<open>*EntityValue\<close> and \<^verbatim>\<open>*Entities\<close>.
\<close>

definition backslash :: char where
  "backslash = CHR 0x5C"

definition dquote :: char where
  "dquote = CHR 0x22"

subsection \<open>Writing a string: \<^verbatim>\<open>appendString\<close> with HTML escaping\<close>

definition hex :: "nat \<Rightarrow> char" where
  "hex n = ''0123456789abcdef'' ! (n mod 16)"

definition htmlSafe :: "char \<Rightarrow> bool" where
  "htmlSafe c \<longleftrightarrow>
     0x20 \<le> byte c \<and> byte c < 0x80 \<and> c \<noteq> dquote \<and> c \<noteq> backslash \<and>
     c \<noteq> CHR ''&'' \<and> c \<noteq> CHR ''<'' \<and> c \<noteq> CHR ''>''"

definition escapeByte :: "char \<Rightarrow> string" where
  "escapeByte c =
     (if c = backslash \<or> c = dquote then [backslash, c]
      else if c = CHR 0x08 then [backslash, CHR ''b'']
      else if c = CHR 0x0C then [backslash, CHR ''f'']
      else if c = CHR 0x0A then [backslash, CHR ''n'']
      else if c = CHR 0x0D then [backslash, CHR ''r'']
      else if c = CHR 0x09 then [backslash, CHR ''t'']
      else [backslash, CHR ''u'', CHR ''0'', CHR ''0'', hex (byte c div 16), hex (byte c mod 16)])"

text \<open>
  The loop of \<^verbatim>\<open>appendString\<close>: a safe ASCII byte is copied, another ASCII byte is
  escaped, a malformed byte becomes the escape of U+FFFD, the line and paragraph separators
  U+2028 and U+2029 are escaped, and every other rune is copied as its bytes.
\<close>

fun escapeString :: "string \<Rightarrow> string" where
  "escapeString [] = []"
| "escapeString (c # cs) =
     (if byte c < 0x80 then
        (if htmlSafe c then [c] else escapeByte c) @ escapeString cs
      else
        (case DecodeRune (c # cs) of
           (r, sz) \<Rightarrow>
             if r = RuneError \<and> sz = 1 then
               [backslash, CHR ''u'', CHR ''f'', CHR ''f'', CHR ''f'', CHR ''d''] @ escapeString cs
             else if r = 0x2028 \<or> r = 0x2029 then
               [backslash, CHR ''u'', CHR ''2'', CHR ''0'', CHR ''2'', hex (r mod 16)]
               @ escapeString (drop (sz - 1) cs)
             else take sz (c # cs) @ escapeString (drop (sz - 1) cs)))"

definition appendString :: "string \<Rightarrow> string" where
  "appendString s = dquote # escapeString s @ [dquote]"

subsection \<open>Reading a string: the scanner's string states and \<^verbatim>\<open>unquoteBytes\<close>\<close>

definition between :: "char \<Rightarrow> char \<Rightarrow> char \<Rightarrow> bool" where
  "between lo hi c \<longleftrightarrow> byte lo \<le> byte c \<and> byte c \<le> byte hi"

definition isHex :: "char \<Rightarrow> bool" where
  "isHex c \<longleftrightarrow>
     between (CHR ''0'') (CHR ''9'') c \<or> between (CHR ''a'') (CHR ''f'') c
     \<or> between (CHR ''A'') (CHR ''F'') c"

definition simpleEscape :: "char \<Rightarrow> bool" where
  "simpleEscape e \<longleftrightarrow>
     e = CHR ''b'' \<or> e = CHR ''f'' \<or> e = CHR ''n'' \<or> e = CHR ''r'' \<or> e = CHR ''t''
     \<or> e = backslash \<or> e = CHR ''/'' \<or> e = dquote"

text \<open>
  \<open>scanString\<close> is the scanner inside a string literal (\<^verbatim>\<open>stateInString\<close>,
  \<^verbatim>\<open>stateInStringEsc\<close>, \<^verbatim>\<open>stateInStringEscU\<close> and its successors), started after the
  opening quote: it returns the literal's content and the input after the closing quote,
  or fails on a control character, a bad escape or a missing closing quote.
\<close>

fun scanString :: "string \<Rightarrow> (string \<times> string) option" where
  "scanString [] = None"
| "scanString (c # cs) =
     (if c = dquote then Some ([], cs)
      else if c = backslash then
        (case cs of
           [] \<Rightarrow> None
         | e # cs' \<Rightarrow>
             if simpleEscape e then
               map_option (\<lambda>(lit, rest). (c # e # lit, rest)) (scanString cs')
             else if e = CHR ''u'' then
               (case cs' of
                  h1 # h2 # h3 # h4 # cs'' \<Rightarrow>
                    if isHex h1 \<and> isHex h2 \<and> isHex h3 \<and> isHex h4 then
                      map_option (\<lambda>(lit, rest). (c # e # h1 # h2 # h3 # h4 # lit, rest))
                        (scanString cs'')
                    else None
                | _ \<Rightarrow> None)
             else None)
      else if byte c < 0x20 then None
      else map_option (\<lambda>(lit, rest). (c # lit, rest)) (scanString cs))"

definition hexval :: "char \<Rightarrow> nat option" where
  "hexval c =
     (if between (CHR ''0'') (CHR ''9'') c then Some (byte c - byte (CHR ''0''))
      else if between (CHR ''a'') (CHR ''f'') c then Some (byte c - byte (CHR ''a'') + 10)
      else if between (CHR ''A'') (CHR ''F'') c then Some (byte c - byte (CHR ''A'') + 10)
      else None)"

text \<open>\<^verbatim>\<open>getu4\<close>: the value of a leading four-digit Unicode escape; Go's \<^verbatim>\<open>-1\<close> is \<open>None\<close>.\<close>

definition getu4 :: "string \<Rightarrow> nat option" where
  "getu4 s =
     (case s of
        b # u # h1 # h2 # h3 # h4 # _ \<Rightarrow>
          if b = backslash \<and> u = CHR ''u'' then
            (case (hexval h1, hexval h2, hexval h3, hexval h4) of
               (Some x1, Some x2, Some x3, Some x4) \<Rightarrow> Some (((x1 * 16 + x2) * 16 + x3) * 16 + x4)
             | _ \<Rightarrow> None)
          else None
      | _ \<Rightarrow> None)"

definition IsSurrogate :: "nat \<Rightarrow> bool" where
  "IsSurrogate r \<longleftrightarrow> 0xD800 \<le> r \<and> r < 0xE000"

text \<open>\<^verbatim>\<open>utf16.DecodeRune\<close>: the rune of a surrogate pair, \<^verbatim>\<open>RuneError\<close> for anything else.\<close>

definition utf16_DecodeRune :: "nat \<Rightarrow> nat \<Rightarrow> nat" where
  "utf16_DecodeRune r1 r2 =
     (if 0xD800 \<le> r1 \<and> r1 < 0xDC00 \<and> 0xDC00 \<le> r2 \<and> r2 < 0xE000
      then (r1 - 0xD800) * 1024 + (r2 - 0xDC00) + 0x10000
      else RuneError)"

text \<open>
  \<^verbatim>\<open>unquoteBytes\<close> on the content of a literal: escapes are resolved, a surrogate pair
  becomes one rune, a lone surrogate and every malformed byte become U+FFFD.  It fails
  (Go's \<^verbatim>\<open>ok = false\<close>) on what the scanner never lets through.
\<close>

fun unquote :: "string \<Rightarrow> string option" where
  "unquote [] = Some []"
| "unquote (c # cs) =
     (if c = backslash then
        (case cs of
           [] \<Rightarrow> None
         | e # cs' \<Rightarrow>
             if e = dquote \<or> e = backslash \<or> e = CHR ''/'' \<or> e = CHR 0x27 then
               map_option ((#) e) (unquote cs')
             else if e = CHR ''b'' then map_option ((#) (CHR 0x08)) (unquote cs')
             else if e = CHR ''f'' then map_option ((#) (CHR 0x0C)) (unquote cs')
             else if e = CHR ''n'' then map_option ((#) (CHR 0x0A)) (unquote cs')
             else if e = CHR ''r'' then map_option ((#) (CHR 0x0D)) (unquote cs')
             else if e = CHR ''t'' then map_option ((#) (CHR 0x09)) (unquote cs')
             else if e = CHR ''u'' then
               (case getu4 (c # cs) of
                  None \<Rightarrow> None
                | Some rr \<Rightarrow>
                    if IsSurrogate rr then
                      (case getu4 (drop 5 cs) of
                         None \<Rightarrow> map_option ((@) (EncodeRune RuneError)) (unquote (drop 5 cs))
                       | Some rr1 \<Rightarrow>
                           if utf16_DecodeRune rr rr1 \<noteq> RuneError then
                             map_option ((@) (EncodeRune (utf16_DecodeRune rr rr1)))
                               (unquote (drop 11 cs))
                           else map_option ((@) (EncodeRune RuneError)) (unquote (drop 5 cs)))
                    else map_option ((@) (EncodeRune rr)) (unquote (drop 5 cs)))
             else None)
      else if c = dquote \<or> byte c < 0x20 then None
      else if byte c < 0x80 then map_option ((#) c) (unquote cs)
      else
        (case DecodeRune (c # cs) of
           (rr, sz) \<Rightarrow> map_option ((@) (EncodeRune rr)) (unquote (drop (sz - 1) cs))))"

subsection \<open>Tokens: the scanner outside strings\<close>

datatype token =
  LBrace | RBrace | LBracket | RBracket | Colon | Comma
  | TString string | TNumber string | TTrue | TFalse | TNull

definition isSpace :: "char \<Rightarrow> bool" where
  "isSpace c \<longleftrightarrow> c = CHR '' '' \<or> c = CHR 0x09 \<or> c = CHR 0x0D \<or> c = CHR 0x0A"

definition isDigit :: "char \<Rightarrow> bool" where
  "isDigit c \<longleftrightarrow> between (CHR ''0'') (CHR ''9'') c"

definition isNumChar :: "char \<Rightarrow> bool" where
  "isNumChar c \<longleftrightarrow>
     isDigit c \<or> c = CHR ''-'' \<or> c = CHR ''+'' \<or> c = CHR ''.'' \<or> c = CHR ''e'' \<or> c = CHR ''E''"

text \<open>
  The number states of the scanner (\<^verbatim>\<open>stateNeg\<close>, \<^verbatim>\<open>state0\<close>, \<^verbatim>\<open>state1\<close>,
  \<^verbatim>\<open>stateDot\<close>, \<^verbatim>\<open>stateDot0\<close>, \<^verbatim>\<open>stateE\<close>, \<^verbatim>\<open>stateESign\<close>, \<^verbatim>\<open>stateE0\<close>) accept
  an optional minus sign, \<^verbatim>\<open>0\<close> or a digit string without leading zero, an optional
  fraction and an optional exponent.  A number ends where the next byte cannot continue
  it, and the scanner then wants a delimiter; so a text is accepted exactly when each
  maximal run of number characters is a number.
\<close>

definition validExp :: "string \<Rightarrow> bool" where
  "validExp s =
     (case s of
        [] \<Rightarrow> True
      | c # cs \<Rightarrow>
          if c = CHR ''e'' \<or> c = CHR ''E'' then
            (case (case cs of
                     [] \<Rightarrow> cs
                   | sg # r \<Rightarrow> if sg = CHR ''+'' \<or> sg = CHR ''-'' then r else cs) of
               [] \<Rightarrow> False
             | d # ds \<Rightarrow> isDigit d \<and> dropWhile isDigit ds = [])
          else False)"

definition validFrac :: "string \<Rightarrow> bool" where
  "validFrac s =
     (case s of
        [] \<Rightarrow> True
      | c # cs \<Rightarrow>
          if c = CHR ''.'' then
            (case cs of
               [] \<Rightarrow> False
             | d # ds \<Rightarrow> isDigit d \<and> validExp (dropWhile isDigit ds))
          else validExp s)"

definition validNumber :: "string \<Rightarrow> bool" where
  "validNumber s =
     (case (case s of
              [] \<Rightarrow> s
            | c # cs \<Rightarrow> if c = CHR ''-'' then cs else s) of
        [] \<Rightarrow> False
      | d # ds \<Rightarrow>
          if d = CHR ''0'' then validFrac ds
          else if between (CHR ''1'') (CHR ''9'') d then validFrac (dropWhile isDigit ds)
          else False)"

lemma scanString_shorter:
  "scanString s = Some (lit, rest) \<Longrightarrow> length rest < length s"
proof (induction s arbitrary: lit rest rule: scanString.induct)
  case 1
  then show ?case by simp
next
  case (2 c cs)
  show ?case
  proof (cases "c = dquote")
    case True
    with "2.prems" show ?thesis by simp
  next
    case nq: False
    show ?thesis
    proof (cases "c = backslash")
      case False
      with nq "2.prems" obtain lit' where "scanString cs = Some (lit', rest)"
        by (auto split: if_splits)
      with "2.IH"(3) [OF nq False] "2.prems" nq False show ?thesis
        by (fastforce split: if_splits)
    next
      case True
      with nq "2.prems" obtain e cs' where cs: "cs = e # cs'"
        by (cases cs) auto
      show ?thesis
      proof (cases "simpleEscape e")
        case se: True
        with nq True cs "2.prems" obtain lit' where "scanString cs' = Some (lit', rest)"
          by auto
        with "2.IH"(1) [OF nq True cs se] cs show ?thesis by fastforce
      next
        case nse: False
        with nq True cs "2.prems" have eu: "e = CHR ''u''"
          by (auto split: if_splits)
        with nq True cs nse "2.prems" obtain h1 h2 h3 h4 cs'' lit'
          where cs': "cs' = h1 # h2 # h3 # h4 # cs''"
            and hx: "isHex h1 \<and> isHex h2 \<and> isHex h3 \<and> isHex h4"
            and r: "scanString cs'' = Some (lit', rest)"
          by (auto split: list.splits if_splits)
        have "length rest < length cs''"
          using "2.IH"(2) nq True cs nse eu cs' hx r by blast
        with cs cs' show ?thesis by simp
      qed
    qed
  qed
qed

text \<open>
  The scanner between values: white space is skipped, punctuation and the three literal
  names are tokens, a string literal is scanned and unquoted, a number is the maximal run
  of number characters.
\<close>

function lex :: "string \<Rightarrow> token list option" where
  "lex [] = Some []"
| "lex (c # cs) =
     (if isSpace c then lex cs
      else if c = CHR ''{'' then map_option ((#) LBrace) (lex cs)
      else if c = CHR ''}'' then map_option ((#) RBrace) (lex cs)
      else if c = CHR ''['' then map_option ((#) LBracket) (lex cs)
      else if c = CHR '']'' then map_option ((#) RBracket) (lex cs)
      else if c = CHR '':'' then map_option ((#) Colon) (lex cs)
      else if c = CHR '','' then map_option ((#) Comma) (lex cs)
      else if c = dquote then
        (case scanString cs of
           None \<Rightarrow> None
         | Some (lit, rest) \<Rightarrow>
             (case unquote lit of
                None \<Rightarrow> None
              | Some s \<Rightarrow> map_option ((#) (TString s)) (lex rest)))
      else if c = CHR ''-'' \<or> isDigit c then
        (if validNumber (c # takeWhile isNumChar cs)
         then map_option ((#) (TNumber (c # takeWhile isNumChar cs))) (lex (dropWhile isNumChar cs))
         else None)
      else if take 4 (c # cs) = ''true'' then map_option ((#) TTrue) (lex (drop 3 cs))
      else if take 5 (c # cs) = ''false'' then map_option ((#) TFalse) (lex (drop 4 cs))
      else if take 4 (c # cs) = ''null'' then map_option ((#) TNull) (lex (drop 3 cs))
      else None)"
  by pat_completeness auto
termination
proof (relation "measure length")
  fix c cs x2 lit rest s
  assume "scanString cs = Some x2" "(lit, rest) = x2"
  then show "(rest, c # cs) \<in> measure length"
    using scanString_shorter [of cs lit rest] by simp
next
  fix c cs
  show "(dropWhile isNumChar cs, c # cs) \<in> measure length"
    using length_dropWhile_le [of isNumChar cs] by simp
qed simp_all

subsection \<open>Values: the scanner's parse stack\<close>

datatype json =
  JNull | JBool bool | JNumber string | JString string
  | JArray "json list" | JObject "(string \<times> json) list"

text \<open>
  A frame is an array or object that is still open: its elements or members so far
  (latest first), and for an object the key whose value is awaited.  The scanner allows
  \<open>maxNestingDepth\<close> open frames.
\<close>

datatype frame = ArrayFrame "json list" | ObjectFrame "(string \<times> json) list" string

datatype expect = ExpValue | ExpValueOrEnd | ExpKey | ExpKeyOrEnd | ExpColon | ExpNext

datatype pstate = Expecting expect "frame list" | Done json

definition maxNestingDepth :: nat where
  "maxNestingDepth = 10000"

fun deliver :: "json \<Rightarrow> frame list \<Rightarrow> pstate" where
  "deliver v [] = Done v"
| "deliver v (ArrayFrame acc # stk) = Expecting ExpNext (ArrayFrame (v # acc) # stk)"
| "deliver v (ObjectFrame acc k # stk) = Expecting ExpNext (ObjectFrame ((k, v) # acc) k # stk)"

definition wantsValue :: "expect \<Rightarrow> bool" where
  "wantsValue e \<longleftrightarrow> e = ExpValue \<or> e = ExpValueOrEnd"

fun step :: "pstate \<Rightarrow> token \<Rightarrow> pstate option" where
  "step (Done v) t = None"
| "step (Expecting e stk) LBracket =
     (if wantsValue e \<and> length stk < maxNestingDepth
      then Some (Expecting ExpValueOrEnd (ArrayFrame [] # stk)) else None)"
| "step (Expecting e stk) LBrace =
     (if wantsValue e \<and> length stk < maxNestingDepth
      then Some (Expecting ExpKeyOrEnd (ObjectFrame [] [] # stk)) else None)"
| "step (Expecting e stk) RBracket =
     (case stk of
        ArrayFrame acc # stk' \<Rightarrow>
          if e = ExpNext \<or> e = ExpValueOrEnd then Some (deliver (JArray (rev acc)) stk') else None
      | _ \<Rightarrow> None)"
| "step (Expecting e stk) RBrace =
     (case stk of
        ObjectFrame acc k # stk' \<Rightarrow>
          if e = ExpNext \<or> e = ExpKeyOrEnd then Some (deliver (JObject (rev acc)) stk') else None
      | _ \<Rightarrow> None)"
| "step (Expecting e stk) Comma =
     (if e = ExpNext then
        (case stk of
           ArrayFrame acc # stk' \<Rightarrow> Some (Expecting ExpValue stk)
         | ObjectFrame acc k # stk' \<Rightarrow> Some (Expecting ExpKey stk)
         | [] \<Rightarrow> None)
      else None)"
| "step (Expecting e stk) Colon = (if e = ExpColon then Some (Expecting ExpValue stk) else None)"
| "step (Expecting e stk) (TString s) =
     (if e = ExpKey \<or> e = ExpKeyOrEnd then
        (case stk of
           ObjectFrame acc k # stk' \<Rightarrow> Some (Expecting ExpColon (ObjectFrame acc s # stk'))
         | _ \<Rightarrow> None)
      else if wantsValue e then Some (deliver (JString s) stk)
      else None)"
| "step (Expecting e stk) (TNumber n) = (if wantsValue e then Some (deliver (JNumber n) stk) else None)"
| "step (Expecting e stk) TTrue = (if wantsValue e then Some (deliver (JBool True) stk) else None)"
| "step (Expecting e stk) TFalse = (if wantsValue e then Some (deliver (JBool False) stk) else None)"
| "step (Expecting e stk) TNull = (if wantsValue e then Some (deliver JNull stk) else None)"

fun run :: "pstate \<Rightarrow> token list \<Rightarrow> pstate option" where
  "run st [] = Some st"
| "run st (t # ts) = (case step st t of None \<Rightarrow> None | Some st' \<Rightarrow> run st' ts)"

text \<open>
  \<open>parse\<close> is \<^verbatim>\<open>checkValid\<close> together with the structure the decoder then walks:
  \<open>None\<close> is a \<^verbatim>\<open>*json.SyntaxError\<close>.
\<close>

definition parse :: "string \<Rightarrow> json option" where
  "parse s =
     (case lex s of
        None \<Rightarrow> None
      | Some ts \<Rightarrow>
          (case run (Expecting ExpValue []) ts of
             Some (Done v) \<Rightarrow> Some v
           | _ \<Rightarrow> None))"

section \<open>The data model of \<^verbatim>\<open>entities.go\<close>\<close>

text \<open>
  The structs of the source, field for field.  The field \<^verbatim>\<open>Id\<close> is written \<open>Id'\<close>
  (HOL has a constant of that name).  \<^verbatim>\<open>Values\<close> carries no \<^verbatim>\<open>json\<close> tag in the source,
  so its name on the wire is \<^verbatim>\<open>Values\<close>.
\<close>

record EntityValue =
  Value :: string
  Expressions :: "string slice"

record Entity =
  Builtin :: bool
  Doc :: string
  Id' :: string
  Values :: "EntityValue slice"

type_synonym Entities = "string slice"

text \<open>The zero values \<^verbatim>\<open>EntityValue{}\<close>, \<^verbatim>\<open>Entity{}\<close> and the empty \<^verbatim>\<open>Entities{}\<close>.\<close>

definition zeroEntityValue :: EntityValue where
  "zeroEntityValue = \<lparr>Value = [], Expressions = None\<rparr>"

definition zeroEntity :: Entity where
  "zeroEntity = \<lparr>Builtin = False, Doc = [], Id' = [], Values = None\<rparr>"

definition emptyEntities :: Entities where
  "emptyEntities = Some []"

text \<open>
  Go's \<^verbatim>\<open>error\<close> values: the two errors of \<^verbatim>\<open>json.Unmarshal\<close> (a
  \<^verbatim>\<open>*json.UnmarshalTypeError\<close> with the JSON value's kind and the Go type's name), an
  error of \<^verbatim>\<open>json.Marshal\<close>, and whatever the transport reports.
\<close>

datatype error =
  SyntaxError | UnmarshalTypeError string string | MarshalError string | TransportError string

section \<open>\<^verbatim>\<open>json.Unmarshal\<close> into the client's types\<close>

text \<open>
  The decoder keeps the first type error it meets (\<^verbatim>\<open>saveError\<close>), goes on decoding
  and returns that error at the end.  Every store below takes the JSON value, the
  current content of the Go variable and the saved error, and returns both updated.
\<close>

definition saveError :: "error option \<Rightarrow> error \<Rightarrow> error option" where
  "saveError saved e = (case saved of None \<Rightarrow> Some e | Some e0 \<Rightarrow> Some e0)"

definition jsonKind :: "json \<Rightarrow> string" where
  "jsonKind j =
     (case j of
        JNull \<Rightarrow> ''null'' | JBool b \<Rightarrow> ''bool'' | JNumber n \<Rightarrow> ''number''
      | JString s \<Rightarrow> ''string'' | JArray js \<Rightarrow> ''array'' | JObject ms \<Rightarrow> ''object'')"

text \<open>\<^verbatim>\<open>literalStore\<close> into a \<^verbatim>\<open>string\<close> and into a \<^verbatim>\<open>bool\<close>: \<^verbatim>\<open>null\<close> leaves the variable as it is.\<close>

definition store_string :: "json \<Rightarrow> string \<times> error option \<Rightarrow> string \<times> error option" where
  "store_string j st =
     (case j of
        JNull \<Rightarrow> st
      | JString s \<Rightarrow> (s, snd st)
      | _ \<Rightarrow> (fst st, saveError (snd st) (UnmarshalTypeError (jsonKind j) ''string'')))"

definition store_bool :: "json \<Rightarrow> bool \<times> error option \<Rightarrow> bool \<times> error option" where
  "store_bool j st =
     (case j of
        JNull \<Rightarrow> st
      | JBool b \<Rightarrow> (b, snd st)
      | _ \<Rightarrow> (fst st, saveError (snd st) (UnmarshalTypeError (jsonKind j) ''bool'')))"

text \<open>
  The decoder's \<^verbatim>\<open>array\<close> into a slice: element \<open>i\<close> is decoded into the slice's
  element \<open>i\<close> where the slice has one, and into a zero element where the slice grows;
  the slice ends with the array's length, and an empty array gives an empty slice that
  is not \<^verbatim>\<open>nil\<close>.  (Where Go grows a slice inside its capacity, a stale element of the
  backing array can show again; that needs one JSON object to name the same slice field
  three times, and is not modelled.)  \<^verbatim>\<open>null\<close> makes the slice \<^verbatim>\<open>nil\<close>.
\<close>

fun store_elems ::
  "(json \<Rightarrow> 'a \<times> error option \<Rightarrow> 'a \<times> error option) \<Rightarrow> 'a \<Rightarrow> json list \<Rightarrow> 'a list
   \<Rightarrow> error option \<Rightarrow> 'a list \<times> error option" where
  "store_elems store zero [] old saved = ([], saved)"
| "store_elems store zero (j # js) old saved =
     (case store j (case old of [] \<Rightarrow> zero | x # xs \<Rightarrow> x, saved) of
        (y, saved') \<Rightarrow>
          (case store_elems store zero js (tl old) saved' of
             (ys, saved'') \<Rightarrow> (y # ys, saved'')))"

definition store_slice ::
  "(json \<Rightarrow> 'a \<times> error option \<Rightarrow> 'a \<times> error option) \<Rightarrow> 'a \<Rightarrow> string \<Rightarrow> json
   \<Rightarrow> 'a slice \<times> error option \<Rightarrow> 'a slice \<times> error option" where
  "store_slice store zero tyname j st =
     (case j of
        JNull \<Rightarrow> (None, snd st)
      | JArray js \<Rightarrow>
          (case store_elems store zero js (case fst st of None \<Rightarrow> [] | Some old \<Rightarrow> old) (snd st) of
             (ys, saved) \<Rightarrow> (Some ys, saved))
      | _ \<Rightarrow> (fst st, saveError (snd st) (UnmarshalTypeError (jsonKind j) tyname)))"

text \<open>
  A key selects the field whose name equals it, and failing that the field whose name
  equals it under case folding.  \<^verbatim>\<open>foldName\<close> maps a letter to its capital, and the two
  runes outside ASCII that fold to an ASCII letter, U+017F (long s) and U+212A (Kelvin
  sign), to \<^verbatim>\<open>S\<close> and \<^verbatim>\<open>K\<close>.  No other rune folds into ASCII, and the field names here
  are ASCII, so other bytes are left as they are.
\<close>

fun foldName :: "string \<Rightarrow> string" where
  "foldName [] = []"
| "foldName (c # cs) =
     (if between (CHR ''a'') (CHR ''z'') c then char_of (byte c - 32) # foldName cs
      else if c = CHR 0xC5 \<and> take 1 cs = [CHR 0xBF] then CHR ''S'' # foldName (drop 1 cs)
      else if c = CHR 0xE2 \<and> take 2 cs = [CHR 0x84, CHR 0xAA] then CHR ''K'' # foldName (drop 2 cs)
      else c # foldName cs)"

definition findField :: "string list \<Rightarrow> string \<Rightarrow> string option" where
  "findField names key =
     (case find (\<lambda>n. n = key) names of
        Some n \<Rightarrow> Some n
      | None \<Rightarrow> find (\<lambda>n. foldName n = foldName key) names)"

definition store_member_EntityValue ::
  "EntityValue \<times> error option \<Rightarrow> string \<times> json \<Rightarrow> EntityValue \<times> error option" where
  "store_member_EntityValue st m =
     (case findField [''value'', ''expressions''] (fst m) of
        None \<Rightarrow> st
      | Some n \<Rightarrow>
          if n = ''value'' then
            (case store_string (snd m) (Value (fst st), snd st) of
               (x, saved) \<Rightarrow> ((fst st)\<lparr>Value := x\<rparr>, saved))
          else
            (case store_slice store_string [] ''[]string'' (snd m) (Expressions (fst st), snd st) of
               (x, saved) \<Rightarrow> ((fst st)\<lparr>Expressions := x\<rparr>, saved)))"

text \<open>The decoder's \<^verbatim>\<open>object\<close> into a struct: the members in order; an unknown key is skipped.\<close>

definition store_EntityValue ::
  "json \<Rightarrow> EntityValue \<times> error option \<Rightarrow> EntityValue \<times> error option" where
  "store_EntityValue j st =
     (case j of
        JNull \<Rightarrow> st
      | JObject ms \<Rightarrow> foldl store_member_EntityValue st ms
      | _ \<Rightarrow> (fst st, saveError (snd st) (UnmarshalTypeError (jsonKind j) ''wit.EntityValue'')))"

definition store_member_Entity ::
  "Entity \<times> error option \<Rightarrow> string \<times> json \<Rightarrow> Entity \<times> error option" where
  "store_member_Entity st m =
     (case findField [''builtin'', ''doc'', ''id'', ''Values''] (fst m) of
        None \<Rightarrow> st
      | Some n \<Rightarrow>
          if n = ''builtin'' then
            (case store_bool (snd m) (Builtin (fst st), snd st) of
               (x, saved) \<Rightarrow> ((fst st)\<lparr>Builtin := x\<rparr>, saved))
          else if n = ''doc'' then
            (case store_string (snd m) (Doc (fst st), snd st) of
               (x, saved) \<Rightarrow> ((fst st)\<lparr>Doc := x\<rparr>, saved))
          else if n = ''id'' then
            (case store_string (snd m) (Id' (fst st), snd st) of
               (x, saved) \<Rightarrow> ((fst st)\<lparr>Id' := x\<rparr>, saved))
          else
            (case store_slice store_EntityValue zeroEntityValue ''[]wit.EntityValue'' (snd m)
                    (Values (fst st), snd st) of
               (x, saved) \<Rightarrow> ((fst st)\<lparr>Values := x\<rparr>, saved)))"

definition store_Entity :: "json \<Rightarrow> Entity \<times> error option \<Rightarrow> Entity \<times> error option" where
  "store_Entity j st =
     (case j of
        JNull \<Rightarrow> st
      | JObject ms \<Rightarrow> foldl store_member_Entity st ms
      | _ \<Rightarrow> (fst st, saveError (snd st) (UnmarshalTypeError (jsonKind j) ''wit.Entity'')))"

definition store_Entities :: "json \<Rightarrow> Entities \<times> error option \<Rightarrow> Entities \<times> error option" where
  "store_Entities = store_slice store_string [] ''wit.Entities''"

text \<open>
  \<^verbatim>\<open>json.Unmarshal(data, v)\<close> for \<^verbatim>\<open>v\<close> a pointer to an \<^verbatim>\<open>Entity\<close> and to an
  \<^verbatim>\<open>Entities\<close>: the content of \<^verbatim>\<open>*v\<close> before, the content after and the error.  A \<^verbatim>\<open>nil\<close>
  byte slice is read as the empty input.
\<close>

definition content :: "bytes \<Rightarrow> string" where
  "content data = (case data of None \<Rightarrow> [] | Some s \<Rightarrow> s)"

definition json_Unmarshal_Entity :: "bytes \<Rightarrow> Entity \<Rightarrow> Entity \<times> error option" where
  "json_Unmarshal_Entity data v =
     (case parse (content data) of
        None \<Rightarrow> (v, Some SyntaxError)
      | Some j \<Rightarrow> store_Entity j (v, None))"

definition json_Unmarshal_Entities :: "bytes \<Rightarrow> Entities \<Rightarrow> Entities \<times> error option" where
  "json_Unmarshal_Entities data v =
     (case parse (content data) of
        None \<Rightarrow> (v, Some SyntaxError)
      | Some j \<Rightarrow> store_Entities j (v, None))"

section \<open>\<^verbatim>\<open>json.Marshal\<close> of the client's types\<close>

text \<open>
  The encoder writes a struct as an object of its fields in order, a slice as an array or
  \<^verbatim>\<open>null\<close>, a \<^verbatim>\<open>nil\<close> pointer as \<^verbatim>\<open>null\<close>; it has no error for these types.
\<close>

fun commaSep :: "string list \<Rightarrow> string" where
  "commaSep [] = []"
| "commaSep [x] = x"
| "commaSep (x # y # ys) = x @ '','' @ commaSep (y # ys)"

definition encode_bool :: "bool \<Rightarrow> string" where
  "encode_bool b = (if b then ''true'' else ''false'')"

definition encode_slice :: "('a \<Rightarrow> string) \<Rightarrow> 'a slice \<Rightarrow> string" where
  "encode_slice enc xs =
     (case xs of None \<Rightarrow> ''null'' | Some ys \<Rightarrow> ''['' @ commaSep (map enc ys) @ '']'')"

definition encode_EntityValue :: "EntityValue \<Rightarrow> string" where
  \<open>encode_EntityValue v =
     ''{"value":'' @ appendString (Value v)
     @ '',"expressions":'' @ encode_slice appendString (Expressions v) @ ''}''\<close>

definition encode_Entity :: "Entity \<Rightarrow> string" where
  \<open>encode_Entity e =
     ''{"builtin":'' @ encode_bool (Builtin e)
     @ '',"doc":'' @ appendString (Doc e)
     @ '',"id":'' @ appendString (Id' e)
     @ '',"Values":'' @ encode_slice encode_EntityValue (Values e) @ ''}''\<close>

text \<open>
  \<^verbatim>\<open>json.Marshal\<close> takes an \<^verbatim>\<open>interface{}\<close>; the client passes it a \<^verbatim>\<open>*Entity\<close> or an
  \<^verbatim>\<open>*EntityValue\<close>, given here by what the pointer points to (\<open>None\<close> for \<^verbatim>\<open>nil\<close>).
\<close>

datatype marshalled = EntityPtr "Entity option" | EntityValuePtr "EntityValue option"

definition json_Marshal :: "marshalled \<Rightarrow> bytes \<times> error option" where
  "json_Marshal v =
     (case v of
        EntityPtr None \<Rightarrow> (Some ''null'', None)
      | EntityPtr (Some e) \<Rightarrow> (Some (encode_Entity e), None)
      | EntityValuePtr None \<Rightarrow> (Some ''null'', None)
      | EntityValuePtr (Some x) \<Rightarrow> (Some (encode_EntityValue x), None))"

section \<open>\<^verbatim>\<open>url.QueryEscape\<close>\<close>

text \<open>
  Letters, digits and \<^verbatim>\<open>- _ . ~\<close> stand for themselves, a space becomes \<^verbatim>\<open>+\<close>, and every
  other byte becomes \<^verbatim>\<open>%\<close> and two capital hexadecimal digits.
\<close>

definition upperhex :: "nat \<Rightarrow> char" where
  "upperhex n = ''0123456789ABCDEF'' ! (n mod 16)"

definition unreserved :: "char \<Rightarrow> bool" where
  "unreserved c \<longleftrightarrow>
     between (CHR ''a'') (CHR ''z'') c \<or> between (CHR ''A'') (CHR ''Z'') c
     \<or> between (CHR ''0'') (CHR ''9'') c
     \<or> c = CHR ''-'' \<or> c = CHR ''_'' \<or> c = CHR ''.'' \<or> c = CHR ''~''"

definition shouldEscape :: "char \<Rightarrow> bool" where
  "shouldEscape c \<longleftrightarrow> \<not> unreserved c"

definition pct :: "char \<Rightarrow> string" where
  "pct c = [CHR ''%'', upperhex (byte c div 16), upperhex (byte c mod 16)]"

fun QueryEscape :: "string \<Rightarrow> string" where
  "QueryEscape [] = []"
| "QueryEscape (c # cs) =
     (if shouldEscape c then (if c = CHR '' '' then ''+'' else pct c) else [c]) @ QueryEscape cs"

section \<open>The client's collaborators\<close>

text \<open>
  The standard-library functions the client calls, as a record, so that a statement can
  hold for the library as it is (\<open>go\<close> below) or for whatever the calls may return.
\<close>

record stdlib =
  Marshal :: "marshalled \<Rightarrow> bytes \<times> error option"
  Unmarshal_Entity :: "bytes \<Rightarrow> Entity \<Rightarrow> Entity \<times> error option"
  Unmarshal_Entities :: "bytes \<Rightarrow> Entities \<Rightarrow> Entities \<times> error option"
  Escape :: "string \<Rightarrow> string"

definition go :: stdlib where
  "go = \<lparr>Marshal = json_Marshal, Unmarshal_Entity = json_Unmarshal_Entity,
         Unmarshal_Entities = json_Unmarshal_Entities, Escape = QueryEscape\<rparr>"

text \<open>
  Modelled from the spec: the package's helpers \<^verbatim>\<open>get\<close>, \<^verbatim>\<open>post\<close>, \<^verbatim>\<open>put\<close> and \<^verbatim>\<open>delete\<close>
  and the type \<^verbatim>\<open>WitClient\<close> are not in \<^verbatim>\<open>entities.go\<close>.  By the spec each helper performs
  one HTTP call for the verb of its name and returns the response's body, its status code
  and an error; the client holds a base URL.  A request is the helper called and its
  arguments as \<^verbatim>\<open>entities.go\<close> passes them (\<^verbatim>\<open>delete\<close> takes two strings); the transport
  is any function from requests to such triples; the requests made are recorded in order.
\<close>

record WitClient =
  ApiBase :: string

datatype request = GET string | POST string bytes | PUT string bytes | DELETE string string

type_synonym transport = "request \<Rightarrow> bytes \<times> int \<times> error option"

text \<open>
  Modelled from the spec: the resource a request addresses.  The spec reads the two
  arguments of \<^verbatim>\<open>delete\<close> as one path, the first followed by the second.
\<close>

fun resource :: "request \<Rightarrow> string" where
  "resource (GET url) = url"
| "resource (POST url data) = url"
| "resource (PUT url data) = url"
| "resource (DELETE url ident) = url @ ident"

text \<open>
  The world a call runs in: the \<^verbatim>\<open>Entity\<close> and \<^verbatim>\<open>EntityValue\<close> objects a caller's
  pointers refer to, by address, and the requests handed to the transport so far.
\<close>

type_synonym addr = nat

record world =
  Entity_at :: "addr \<Rightarrow> Entity"
  EntityValue_at :: "addr \<Rightarrow> EntityValue"
  sent :: "request list"

definition get :: "transport \<Rightarrow> string \<Rightarrow> world \<Rightarrow> (bytes \<times> int \<times> error option) \<times> world" where
  "get tr url w = (tr (GET url), w\<lparr>sent := sent w @ [GET url]\<rparr>)"

definition post ::
  "transport \<Rightarrow> string \<Rightarrow> bytes \<Rightarrow> world \<Rightarrow> (bytes \<times> int \<times> error option) \<times> world" where
  "post tr url data w = (tr (POST url data), w\<lparr>sent := sent w @ [POST url data]\<rparr>)"

definition put ::
  "transport \<Rightarrow> string \<Rightarrow> bytes \<Rightarrow> world \<Rightarrow> (bytes \<times> int \<times> error option) \<times> world" where
  "put tr url data w = (tr (PUT url data), w\<lparr>sent := sent w @ [PUT url data]\<rparr>)"

definition delete ::
  "transport \<Rightarrow> string \<Rightarrow> string \<Rightarrow> world \<Rightarrow> (bytes \<times> int \<times> error option) \<times> world" where
  "delete tr url ident w = (tr (DELETE url ident), w\<lparr>sent := sent w @ [DELETE url ident]\<rparr>)"

section \<open>The operations of \<^verbatim>\<open>entities.go\<close>\<close>

text \<open>
  Each operation takes the library (where it calls it), the transport, the client, its
  arguments and the world, and returns Go's pair of results with the world after the call.  A \<^verbatim>\<open>*Entity\<close>
  or \<^verbatim>\<open>*EntityValue\<close> argument is \<open>None\<close> (\<^verbatim>\<open>nil\<close>) or an address; a returned \<^verbatim>\<open>*Entity\<close> or
  \<^verbatim>\<open>*Entities\<close> is \<open>None\<close> (\<^verbatim>\<open>nil\<close>) or the content of the object the operation allocated.
  Go's \<^verbatim>\<open>err\<close> is assigned anew by each call that returns one, which the nested patterns
  below repeat.  The receiver is a client that exists.
\<close>

definition CreateEntity ::
  "stdlib \<Rightarrow> transport \<Rightarrow> WitClient \<Rightarrow> addr option \<Rightarrow> world
   \<Rightarrow> (bytes \<times> error option) \<times> world" where
  "CreateEntity lib tr client entity w =
     (case Marshal lib (EntityPtr (map_option (Entity_at w) entity)) of
        (data, err) \<Rightarrow>
          (case post tr (ApiBase client @ ''/entities'') data w of
             ((result, statusCode, err), w') \<Rightarrow>
               if statusCode \<noteq> 200 then ((None, err), w')
               else ((result, None), w')))"

definition CreateEntityValue ::
  "stdlib \<Rightarrow> transport \<Rightarrow> WitClient \<Rightarrow> string \<Rightarrow> addr option \<Rightarrow> world
   \<Rightarrow> (Entity option \<times> error option) \<times> world" where
  "CreateEntityValue lib tr client ident entityValue w =
     (case Marshal lib (EntityValuePtr (map_option (EntityValue_at w) entityValue)) of
        (data, err) \<Rightarrow>
          (case post tr (ApiBase client @ ''/entities/'' @ ident @ ''/values'') data w of
             ((result, statusCode, err), w') \<Rightarrow>
               if statusCode \<noteq> 200 then ((None, err), w')
               else
                 (case Unmarshal_Entity lib result zeroEntity of
                    (entity, err) \<Rightarrow>
                      if err \<noteq> None then ((None, err), w')
                      else ((Some entity, None), w'))))"

definition CreateEntityValueExp ::
  "stdlib \<Rightarrow> transport \<Rightarrow> WitClient \<Rightarrow> string \<Rightarrow> string \<Rightarrow> string \<Rightarrow> world
   \<Rightarrow> (Entity option \<times> error option) \<times> world" where
  "CreateEntityValueExp lib tr client ident val exp w =
     (case post tr (ApiBase client @ ''/entities/'' @ ident @ ''/values/'' @ val @ ''/expressions'')
             (Some exp) w of
        ((result, statusCode, err), w') \<Rightarrow>
          if statusCode \<noteq> 200 then ((None, err), w')
          else
            (case Unmarshal_Entity lib result zeroEntity of
               (entity, err) \<Rightarrow>
                 if err \<noteq> None then ((None, err), w')
                 else ((Some entity, None), w')))"

definition DeleteEntity ::
  "transport \<Rightarrow> WitClient \<Rightarrow> string \<Rightarrow> world \<Rightarrow> (bytes \<times> error option) \<times> world" where
  "DeleteEntity tr client ident w =
     (case delete tr (ApiBase client @ ''/entities/'') ident w of
        ((result, statusCode, err), w') \<Rightarrow>
          if statusCode \<noteq> 200 then ((None, err), w')
          else ((result, None), w'))"

definition DeleteEntityValue ::
  "transport \<Rightarrow> WitClient \<Rightarrow> string \<Rightarrow> string \<Rightarrow> world
   \<Rightarrow> (bytes \<times> error option) \<times> world" where
  "DeleteEntityValue tr client ident val w =
     (case delete tr (ApiBase client @ ''/entities/'') (ident @ ''/values/'' @ val) w of
        ((result, statusCode, err), w') \<Rightarrow>
          if statusCode \<noteq> 200 then ((None, err), w')
          else ((result, None), w'))"

definition DeleteEntityValueExp ::
  "stdlib \<Rightarrow> transport \<Rightarrow> WitClient \<Rightarrow> string \<Rightarrow> string \<Rightarrow> string \<Rightarrow> world
   \<Rightarrow> (bytes \<times> error option) \<times> world" where
  "DeleteEntityValueExp lib tr client ident val exp w =
     (let data = ident @ ''/values/'' @ val @ ''/expression/'' @ Escape lib exp in
      case delete tr (ApiBase client @ ''/entities/'') data w of
        ((result, statusCode, err), w') \<Rightarrow>
          if statusCode \<noteq> 200 then ((None, err), w')
          else ((result, None), w'))"

text \<open>The three parse helpers; \<^verbatim>\<open>parseEntityValue\<close> is called by no operation.\<close>

definition parseEntities :: "stdlib \<Rightarrow> bytes \<Rightarrow> Entities option \<times> error option" where
  "parseEntities lib data =
     (case Unmarshal_Entities lib data emptyEntities of
        (entities, err) \<Rightarrow>
          if err \<noteq> None then (None, err)
          else (Some entities, None))"

definition parseEntity :: "stdlib \<Rightarrow> bytes \<Rightarrow> Entity option \<times> error option" where
  "parseEntity lib data =
     (case Unmarshal_Entity lib data zeroEntity of
        (entity, err) \<Rightarrow>
          if err \<noteq> None then (None, err)
          else (Some entity, None))"

definition Entities ::
  "stdlib \<Rightarrow> transport \<Rightarrow> WitClient \<Rightarrow> world \<Rightarrow> (Entities option \<times> error option) \<times> world" where
  "Entities lib tr client w =
     (case get tr (ApiBase client @ ''/entities'') w of
        ((result, statusCode, err), w') \<Rightarrow>
          if err \<noteq> None then ((None, err), w')
          else
            (case parseEntities lib result of
               (entities, perr) \<Rightarrow> ((entities, None), w')))"

definition Entity ::
  "stdlib \<Rightarrow> transport \<Rightarrow> WitClient \<Rightarrow> string \<Rightarrow> world
   \<Rightarrow> (Entity option \<times> error option) \<times> world" where
  "Entity lib tr client ident w =
     (case get tr (ApiBase client @ ''/entities/'' @ ident) w of
        ((result, statusCode, err), w') \<Rightarrow>
          if err \<noteq> None then ((None, err), w')
          else
            (case parseEntity lib result of
               (entity, perr) \<Rightarrow> ((entity, None), w')))"

text \<open>
  \<^verbatim>\<open>UpdateEntity\<close> reads \<^verbatim>\<open>entity.Id\<close> to build the URL: on a \<^verbatim>\<open>nil\<close> entity the call
  panics there, after the marshalling and before any request.
\<close>

datatype 'a outcome = Return 'a | Panic

definition UpdateEntity ::
  "stdlib \<Rightarrow> transport \<Rightarrow> WitClient \<Rightarrow> addr option \<Rightarrow> world
   \<Rightarrow> (bytes \<times> error option) outcome \<times> world" where
  "UpdateEntity lib tr client entity w =
     (case Marshal lib (EntityPtr (map_option (Entity_at w) entity)) of
        (data, err) \<Rightarrow>
          (case entity of
             None \<Rightarrow> (Panic, w)
           | Some a \<Rightarrow>
               (case put tr (ApiBase client @ ''/entities/'' @ Id' (Entity_at w a)) data w of
                  ((result, statusCode, err), w') \<Rightarrow>
                    if statusCode \<noteq> 200 then (Return (None, err), w')
                    else (Return (result, None), w'))))"

section \<open>Reading a call: the transport's answer and the example inputs\<close>

text \<open>The three results of a transport helper, and its answer to the latest request sent.\<close>

definition respBody :: "bytes \<times> int \<times> error option \<Rightarrow> bytes" where
  "respBody r = fst r"

definition respStatus :: "bytes \<times> int \<times> error option \<Rightarrow> int" where
  "respStatus r = fst (snd r)"

definition respErr :: "bytes \<times> int \<times> error option \<Rightarrow> error option" where
  "respErr r = snd (snd r)"

definition reply :: "transport \<Rightarrow> world \<Rightarrow> bytes \<times> int \<times> error option" where
  "reply tr w = tr (last (sent w))"

text \<open>
  Concrete inputs for the examples: a client, a world with zero objects at every address
  and nothing sent yet, and transports that give one answer to every request.
\<close>

definition demo_client :: WitClient where
  "demo_client = \<lparr>ApiBase = ''https://api.wit.ai''\<rparr>"

definition empty_world :: world where
  "empty_world =
     \<lparr>Entity_at = (\<lambda>a. zeroEntity), EntityValue_at = (\<lambda>a. zeroEntityValue), sent = []\<rparr>"

definition always :: "bytes \<times> int \<times> error option \<Rightarrow> transport" where
  "always r = (\<lambda>req. r)"

definition not_found :: transport where
  "not_found = always (Some ''no such entity'', 404, None)"

definition misleading :: transport where
  \<open>misleading = always (Some ''["wit$temperature"]'', 404, None)\<close>

definition garbled :: transport where
  "garbled = always (Some ''oops'', 200, None)"

definition truncated :: transport where
  \<open>truncated = always (Some ''["wit$temperature",'', 200, None)\<close>


text \<open>
  Percent-encoding in the spec's words (RFC 3986), to compare \<open>QueryEscape\<close> with: an
  unreserved character stands for itself, every other byte is \<^verbatim>\<open>%\<close> and two hexadecimal
  digits.
\<close>

fun spec_percent_encode :: "string \<Rightarrow> string" where
  "spec_percent_encode [] = []"
| "spec_percent_encode (c # cs) = (if unreserved c then [c] else pct c) @ spec_percent_encode cs"

section \<open>Notions for the round trip through the wire format\<close>

text \<open>
  What \<^verbatim>\<open>json.Unmarshal\<close> makes of an object written by \<^verbatim>\<open>json.Marshal\<close>: every string
  comes back coerced to valid UTF-8.  An entity is valid when all its strings are valid
  UTF-8.
\<close>

definition sanitizeEntityValue :: "EntityValue \<Rightarrow> EntityValue" where
  "sanitizeEntityValue v =
     \<lparr>Value = ToValidUTF8 (Value v), Expressions = map_option (map ToValidUTF8) (Expressions v)\<rparr>"

definition sanitizeEntity :: "Entity \<Rightarrow> Entity" where
  "sanitizeEntity e =
     \<lparr>Builtin = Builtin e, Doc = ToValidUTF8 (Doc e), Id' = ToValidUTF8 (Id' e),
      Values = map_option (map sanitizeEntityValue) (Values e)\<rparr>"

definition validEntityValue :: "EntityValue \<Rightarrow> bool" where
  "validEntityValue v \<longleftrightarrow>
     ValidString (Value v)
     \<and> (case Expressions v of None \<Rightarrow> True | Some xs \<Rightarrow> list_all ValidString xs)"

definition validEntity :: "Entity \<Rightarrow> bool" where
  "validEntity e \<longleftrightarrow>
     ValidString (Doc e) \<and> ValidString (Id' e)
     \<and> (case Values e of None \<Rightarrow> True | Some vs \<Rightarrow> list_all validEntityValue vs)"

text \<open>
  The tokens and the JSON value of the text the encoder writes for a string, a slice, an
  \<^verbatim>\<open>EntityValue\<close> and an \<^verbatim>\<open>Entity\<close>.
\<close>

fun sepBy :: "token list list \<Rightarrow> token list" where
  "sepBy [] = []"
| "sepBy [x] = x"
| "sepBy (x # y # ys) = x @ Comma # sepBy (y # ys)"

definition tk_string :: "string \<Rightarrow> token list" where
  "tk_string s = [TString (ToValidUTF8 s)]"

definition tk_slice :: "('a \<Rightarrow> token list) \<Rightarrow> 'a slice \<Rightarrow> token list" where
  "tk_slice tk xs =
     (case xs of None \<Rightarrow> [TNull] | Some ys \<Rightarrow> LBracket # sepBy (map tk ys) @ [RBracket])"

definition tk_EntityValue :: "EntityValue \<Rightarrow> token list" where
  "tk_EntityValue v =
     [LBrace, TString ''value'', Colon] @ tk_string (Value v)
     @ [Comma, TString ''expressions'', Colon] @ tk_slice tk_string (Expressions v) @ [RBrace]"

definition tk_Entity :: "Entity \<Rightarrow> token list" where
  "tk_Entity e =
     [LBrace, TString ''builtin'', Colon] @ [if Builtin e then TTrue else TFalse]
     @ [Comma, TString ''doc'', Colon] @ tk_string (Doc e)
     @ [Comma, TString ''id'', Colon] @ tk_string (Id' e)
     @ [Comma, TString ''Values'', Colon] @ tk_slice tk_EntityValue (Values e) @ [RBrace]"

definition js_string :: "string \<Rightarrow> json" where
  "js_string s = JString (ToValidUTF8 s)"

definition js_slice :: "('a \<Rightarrow> json) \<Rightarrow> 'a slice \<Rightarrow> json" where
  "js_slice js xs = (case xs of None \<Rightarrow> JNull | Some ys \<Rightarrow> JArray (map js ys))"

definition js_EntityValue :: "EntityValue \<Rightarrow> json" where
  "js_EntityValue v =
     JObject [(''value'', js_string (Value v)),
              (''expressions'', js_slice js_string (Expressions v))]"

definition js_Entity :: "Entity \<Rightarrow> json" where
  "js_Entity e =
     JObject [(''builtin'', JBool (Builtin e)), (''doc'', js_string (Doc e)),
              (''id'', js_string (Id' e)), (''Values'', js_slice js_EntityValue (Values e))]"

definition member_toks :: "string \<times> token list \<times> json \<Rightarrow> token list" where
  "member_toks m = TString (fst m) # Colon # fst (snd m)"

definition member_json :: "string \<times> token list \<times> json \<Rightarrow> string \<times> json" where
  "member_json m = (fst m, snd (snd m))"

text \<open>
  How a piece of text or a run of tokens passes through the reader: \<open>scans p\<close> when the
  string scanner copies \<open>p\<close> into the literal, \<open>unquotes p q\<close> when unquoting turns
  \<open>p\<close> into \<open>q\<close>, \<open>lexes s ts\<close> when the scanner reads \<open>s\<close> as the tokens
  \<open>ts\<close>, and \<open>yields d ts j\<close> when the parse stack, with room for \<open>d\<close> more
  frames, reads \<open>ts\<close> as the value \<open>j\<close>; each whatever follows.
\<close>

definition scans :: "string \<Rightarrow> bool" where
  "scans p \<longleftrightarrow>
     (\<forall>X. scanString (p @ X) = map_option (\<lambda>(lit, rest). (p @ lit, rest)) (scanString X))"

definition unquotes :: "string \<Rightarrow> string \<Rightarrow> bool" where
  "unquotes p q \<longleftrightarrow> (\<forall>X. unquote (p @ X) = map_option ((@) q) (unquote X))"

definition lexes :: "string \<Rightarrow> token list \<Rightarrow> bool" where
  "lexes s ts \<longleftrightarrow>
     (\<forall>rest. lex (s @ rest) = (case lex rest of None \<Rightarrow> None | Some us \<Rightarrow> Some (ts @ us)))"

definition yields :: "nat \<Rightarrow> token list \<Rightarrow> json \<Rightarrow> bool" where
  "yields d ts j \<longleftrightarrow>
     (\<forall>e stk rest. wantsValue e \<longrightarrow> length stk + d \<le> maxNestingDepth \<longrightarrow>
        run (Expecting e stk) (ts @ rest) = run (deliver j stk) rest)"

text \<open>
  Two entities for the examples: one whose strings are valid UTF-8 (an expression holds
  a two-byte rune), and one whose \<^verbatim>\<open>Doc\<close> is the single byte FF, which no UTF-8 text holds.
\<close>

definition favorite_city :: Entity where
  "favorite_city =
     \<lparr>Builtin = False, Doc = ''A city that I like'', Id' = ''favorite_city'',
      Values = Some [\<lparr>Value = ''Paris'',
                       Expressions = Some [''City of Light'',
                                           ''Ville Lumi'' @ [CHR 0xC3, CHR 0xA8] @ ''re'']\<rparr>,
                     \<lparr>Value = ''Barcelona'', Expressions = None\<rparr>]\<rparr>"

definition mangled :: Entity where
  "mangled =
     \<lparr>Builtin = False, Doc = [CHR 0xFF], Id' = ''favorite_city'',
      Values = Some [\<lparr>Value = ''Paris'', Expressions = Some [''City of Light'']\<rparr>]\<rparr>"

section \<open>What each operation sends and returns\<close>

text \<open>
  Every operation hands exactly one request to the transport, and its results are a
  function of the transport's answer to that request.
\<close>

lemma reply_after: "reply tr (w\<lparr>sent := sent w @ [req]\<rparr>) = tr req"
  by (simp add: reply_def)

lemma reply_always: "reply (always r) w = r"
  by (simp add: reply_def always_def)

lemma CreateEntity_world:
  "snd (CreateEntity lib tr client entity w) =
     w\<lparr>sent := sent w @ [POST (ApiBase client @ ''/entities'') (fst (Marshal lib (EntityPtr (map_option (Entity_at w) entity))))]\<rparr>"
  by (simp add: CreateEntity_def post_def split_beta)

lemma CreateEntity_value:
  "fst (CreateEntity lib tr client entity w) =
     (if respStatus (tr (POST (ApiBase client @ ''/entities'') (fst (Marshal lib (EntityPtr (map_option (Entity_at w) entity)))))) \<noteq> 200
      then (None, respErr (tr (POST (ApiBase client @ ''/entities'') (fst (Marshal lib (EntityPtr (map_option (Entity_at w) entity)))))))
      else (respBody (tr (POST (ApiBase client @ ''/entities'') (fst (Marshal lib (EntityPtr (map_option (Entity_at w) entity)))))), None))"
  by (simp add: CreateEntity_def post_def split_beta respBody_def respStatus_def respErr_def)

lemma CreateEntityValue_world:
  "snd (CreateEntityValue lib tr client ident entityValue w) =
     w\<lparr>sent := sent w @ [POST (ApiBase client @ ''/entities/'' @ ident @ ''/values'') (fst (Marshal lib (EntityValuePtr (map_option (EntityValue_at w) entityValue))))]\<rparr>"
  by (simp add: CreateEntityValue_def post_def split_beta)

lemma CreateEntityValue_value:
  "fst (CreateEntityValue lib tr client ident entityValue w) =
     (if respStatus (tr (POST (ApiBase client @ ''/entities/'' @ ident @ ''/values'') (fst (Marshal lib (EntityValuePtr (map_option (EntityValue_at w) entityValue)))))) \<noteq> 200
      then (None, respErr (tr (POST (ApiBase client @ ''/entities/'' @ ident @ ''/values'') (fst (Marshal lib (EntityValuePtr (map_option (EntityValue_at w) entityValue)))))))
      else if snd (Unmarshal_Entity lib (respBody (tr (POST (ApiBase client @ ''/entities/'' @ ident @ ''/values'') (fst (Marshal lib (EntityValuePtr (map_option (EntityValue_at w) entityValue))))))) zeroEntity) \<noteq> None
      then (None, snd (Unmarshal_Entity lib (respBody (tr (POST (ApiBase client @ ''/entities/'' @ ident @ ''/values'') (fst (Marshal lib (EntityValuePtr (map_option (EntityValue_at w) entityValue))))))) zeroEntity))
      else (Some (fst (Unmarshal_Entity lib (respBody (tr (POST (ApiBase client @ ''/entities/'' @ ident @ ''/values'') (fst (Marshal lib (EntityValuePtr (map_option (EntityValue_at w) entityValue))))))) zeroEntity)), None))"
  by (simp add: CreateEntityValue_def post_def split_beta respBody_def respStatus_def respErr_def)

lemma CreateEntityValueExp_world:
  "snd (CreateEntityValueExp lib tr client ident val exp w) =
     w\<lparr>sent := sent w @ [POST (ApiBase client @ ''/entities/'' @ ident @ ''/values/'' @ val @ ''/expressions'') (Some exp)]\<rparr>"
  by (simp add: CreateEntityValueExp_def post_def split_beta)

lemma CreateEntityValueExp_value:
  "fst (CreateEntityValueExp lib tr client ident val exp w) =
     (if respStatus (tr (POST (ApiBase client @ ''/entities/'' @ ident @ ''/values/'' @ val @ ''/expressions'') (Some exp))) \<noteq> 200
      then (None, respErr (tr (POST (ApiBase client @ ''/entities/'' @ ident @ ''/values/'' @ val @ ''/expressions'') (Some exp))))
      else if snd (Unmarshal_Entity lib (respBody (tr (POST (ApiBase client @ ''/entities/'' @ ident @ ''/values/'' @ val @ ''/expressions'') (Some exp)))) zeroEntity) \<noteq> None
      then (None, snd (Unmarshal_Entity lib (respBody (tr (POST (ApiBase client @ ''/entities/'' @ ident @ ''/values/'' @ val @ ''/expressions'') (Some exp)))) zeroEntity))
      else (Some (fst (Unmarshal_Entity lib (respBody (tr (POST (ApiBase client @ ''/entities/'' @ ident @ ''/values/'' @ val @ ''/expressions'') (Some exp)))) zeroEntity)), None))"
  by (simp add: CreateEntityValueExp_def post_def split_beta respBody_def respStatus_def respErr_def)

lemma DeleteEntity_world:
  "snd (DeleteEntity tr client ident w) =
     w\<lparr>sent := sent w @ [DELETE (ApiBase client @ ''/entities/'') ident]\<rparr>"
  by (simp add: DeleteEntity_def delete_def split_beta)

lemma DeleteEntity_value:
  "fst (DeleteEntity tr client ident w) =
     (if respStatus (tr (DELETE (ApiBase client @ ''/entities/'') ident)) \<noteq> 200
      then (None, respErr (tr (DELETE (ApiBase client @ ''/entities/'') ident)))
      else (respBody (tr (DELETE (ApiBase client @ ''/entities/'') ident)), None))"
  by (simp add: DeleteEntity_def delete_def split_beta respBody_def respStatus_def respErr_def)

lemma DeleteEntityValue_world:
  "snd (DeleteEntityValue tr client ident val w) =
     w\<lparr>sent := sent w @ [DELETE (ApiBase client @ ''/entities/'') (ident @ ''/values/'' @ val)]\<rparr>"
  by (simp add: DeleteEntityValue_def delete_def split_beta)

lemma DeleteEntityValue_value:
  "fst (DeleteEntityValue tr client ident val w) =
     (if respStatus (tr (DELETE (ApiBase client @ ''/entities/'') (ident @ ''/values/'' @ val))) \<noteq> 200
      then (None, respErr (tr (DELETE (ApiBase client @ ''/entities/'') (ident @ ''/values/'' @ val))))
      else (respBody (tr (DELETE (ApiBase client @ ''/entities/'') (ident @ ''/values/'' @ val))), None))"
  by (simp add: DeleteEntityValue_def delete_def split_beta respBody_def respStatus_def respErr_def)

lemma DeleteEntityValueExp_world:
  "snd (DeleteEntityValueExp lib tr client ident val exp w) =
     w\<lparr>sent := sent w @ [DELETE (ApiBase client @ ''/entities/'') (ident @ ''/values/'' @ val @ ''/expression/'' @ Escape lib exp)]\<rparr>"
  by (simp add: DeleteEntityValueExp_def delete_def Let_def split_beta)

lemma DeleteEntityValueExp_value:
  "fst (DeleteEntityValueExp lib tr client ident val exp w) =
     (if respStatus (tr (DELETE (ApiBase client @ ''/entities/'') (ident @ ''/values/'' @ val @ ''/expression/'' @ Escape lib exp))) \<noteq> 200
      then (None, respErr (tr (DELETE (ApiBase client @ ''/entities/'') (ident @ ''/values/'' @ val @ ''/expression/'' @ Escape lib exp))))
      else (respBody (tr (DELETE (ApiBase client @ ''/entities/'') (ident @ ''/values/'' @ val @ ''/expression/'' @ Escape lib exp))), None))"
  by (simp add: DeleteEntityValueExp_def delete_def Let_def split_beta respBody_def respStatus_def respErr_def)

lemma Entities_world:
  "snd (Entities lib tr client w) =
     w\<lparr>sent := sent w @ [GET (ApiBase client @ ''/entities'')]\<rparr>"
  by (simp add: Entities_def get_def split_beta)

lemma Entities_value:
  "fst (Entities lib tr client w) =
     (if respErr (tr (GET (ApiBase client @ ''/entities''))) \<noteq> None
      then (None, respErr (tr (GET (ApiBase client @ ''/entities''))))
      else (fst (parseEntities lib (respBody (tr (GET (ApiBase client @ ''/entities''))))), None))"
  by (simp add: Entities_def get_def split_beta respBody_def respStatus_def respErr_def)

lemma Entity_world:
  "snd (Entity lib tr client ident w) =
     w\<lparr>sent := sent w @ [GET (ApiBase client @ ''/entities/'' @ ident)]\<rparr>"
  by (simp add: Entity_def get_def split_beta)

lemma Entity_value:
  "fst (Entity lib tr client ident w) =
     (if respErr (tr (GET (ApiBase client @ ''/entities/'' @ ident))) \<noteq> None
      then (None, respErr (tr (GET (ApiBase client @ ''/entities/'' @ ident))))
      else (fst (parseEntity lib (respBody (tr (GET (ApiBase client @ ''/entities/'' @ ident))))), None))"
  by (simp add: Entity_def get_def split_beta respBody_def respStatus_def respErr_def)

lemma UpdateEntity_world:
  "snd (UpdateEntity lib tr client (Some a) w) =
     w\<lparr>sent := sent w @ [PUT (ApiBase client @ ''/entities/'' @ Id' (Entity_at w a)) (fst (Marshal lib (EntityPtr (Some (Entity_at w a)))))]\<rparr>"
  by (simp add: UpdateEntity_def put_def split_beta)

lemma UpdateEntity_value:
  "fst (UpdateEntity lib tr client (Some a) w) =
     (if respStatus (tr (PUT (ApiBase client @ ''/entities/'' @ Id' (Entity_at w a)) (fst (Marshal lib (EntityPtr (Some (Entity_at w a))))))) \<noteq> 200
      then Return (None, respErr (tr (PUT (ApiBase client @ ''/entities/'' @ Id' (Entity_at w a)) (fst (Marshal lib (EntityPtr (Some (Entity_at w a))))))))
      else Return (respBody (tr (PUT (ApiBase client @ ''/entities/'' @ Id' (Entity_at w a)) (fst (Marshal lib (EntityPtr (Some (Entity_at w a))))))), None))"
  by (simp add: UpdateEntity_def put_def split_beta respBody_def respStatus_def respErr_def)

lemma UpdateEntity_nil: "UpdateEntity lib tr client None w = (Panic, w)"
  by (simp add: UpdateEntity_def split_beta)

lemma parseEntities_error:
  "snd (parseEntities lib data) \<noteq> None \<Longrightarrow> fst (parseEntities lib data) = None"
  by (simp add: parseEntities_def split_beta split: if_splits)

lemma parseEntity_error:
  "snd (parseEntity lib data) \<noteq> None \<Longrightarrow> fst (parseEntity lib data) = None"
  by (simp add: parseEntity_def split_beta split: if_splits)

text \<open>Unfolding the scanner and the decoder on a concrete text.\<close>

lemmas scan_defs = parse_def isSpace_def dquote_def backslash_def isDigit_def between_def byte_def
  simpleEscape_def isHex_def wantsValue_def maxNestingDepth_def isNumChar_def validNumber_def
  validFrac_def validExp_def hexval_def getu4_def IsSurrogate_def utf16_DecodeRune_def

lemmas decode_defs = parseEntities_def parseEntity_def go_def json_Unmarshal_Entities_def
  json_Unmarshal_Entity_def store_Entities_def store_slice_def store_string_def store_bool_def
  emptyEntities_def content_def store_Entity_def store_member_Entity_def store_EntityValue_def
  store_member_EntityValue_def findField_def zeroEntity_def zeroEntityValue_def saveError_def
  jsonKind_def

section \<open>Status codes\<close>

text \<open>
  Claim C1, as amended.  For CreateEntity, CreateEntityValue, CreateEntityValueExp,
  DeleteEntity, DeleteEntityValue, DeleteEntityValueExp and UpdateEntity, and for every
  transport: if the status code the transport returns for the operation's request is not
  200, the operation returns a \<^verbatim>\<open>nil\<close> result, together with the transport's error (which
  may be \<^verbatim>\<open>nil\<close>); no object is built from the response body.  (UpdateEntity is taken on
  an entity that is not \<^verbatim>\<open>nil\<close>; on \<^verbatim>\<open>nil\<close> it panics before any request.)
\<close>

theorem non_200_status_gives_nil_result:
  "(respStatus (reply tr (snd (CreateEntity lib tr client entity w))) \<noteq> 200 \<longrightarrow>
      fst (CreateEntity lib tr client entity w) =
        (None, respErr (reply tr (snd (CreateEntity lib tr client entity w)))))
   \<and> (respStatus (reply tr (snd (CreateEntityValue lib tr client ident entityValue w))) \<noteq> 200 \<longrightarrow>
      fst (CreateEntityValue lib tr client ident entityValue w) =
        (None, respErr (reply tr (snd (CreateEntityValue lib tr client ident entityValue w)))))
   \<and> (respStatus (reply tr (snd (CreateEntityValueExp lib tr client ident val exp w))) \<noteq> 200 \<longrightarrow>
      fst (CreateEntityValueExp lib tr client ident val exp w) =
        (None, respErr (reply tr (snd (CreateEntityValueExp lib tr client ident val exp w)))))
   \<and> (respStatus (reply tr (snd (DeleteEntity tr client ident w))) \<noteq> 200 \<longrightarrow>
      fst (DeleteEntity tr client ident w) =
        (None, respErr (reply tr (snd (DeleteEntity tr client ident w)))))
   \<and> (respStatus (reply tr (snd (DeleteEntityValue tr client ident val w))) \<noteq> 200 \<longrightarrow>
      fst (DeleteEntityValue tr client ident val w) =
        (None, respErr (reply tr (snd (DeleteEntityValue tr client ident val w)))))
   \<and> (respStatus (reply tr (snd (DeleteEntityValueExp lib tr client ident val exp w))) \<noteq> 200 \<longrightarrow>
      fst (DeleteEntityValueExp lib tr client ident val exp w) =
        (None, respErr (reply tr (snd (DeleteEntityValueExp lib tr client ident val exp w)))))
   \<and> (respStatus (reply tr (snd (UpdateEntity lib tr client (Some a) w))) \<noteq> 200 \<longrightarrow>
      fst (UpdateEntity lib tr client (Some a) w) =
        Return (None, respErr (reply tr (snd (UpdateEntity lib tr client (Some a) w)))))"
  unfolding CreateEntity_world CreateEntityValue_world CreateEntityValueExp_world DeleteEntity_world
    DeleteEntityValue_world DeleteEntityValueExp_world UpdateEntity_world reply_after
    CreateEntity_value CreateEntityValue_value CreateEntityValueExp_value DeleteEntity_value
    DeleteEntityValue_value DeleteEntityValueExp_value UpdateEntity_value
  by simp

text \<open>
  The seven operations against a transport that answers 404 with a body and no error:
  each returns \<^verbatim>\<open>nil, nil\<close>.
\<close>

theorem non_200_status_gives_nil_result_witness:
  "respStatus (reply not_found (snd (CreateEntity go not_found demo_client (Some 0) empty_world))) \<noteq> 200
   \<and> fst (CreateEntity go not_found demo_client (Some 0) empty_world) = (None, None)
   \<and> respStatus (reply not_found
         (snd (CreateEntityValue go not_found demo_client ''favorite_city'' (Some 0) empty_world))) \<noteq> 200
   \<and> fst (CreateEntityValue go not_found demo_client ''favorite_city'' (Some 0) empty_world) = (None, None)
   \<and> respStatus (reply not_found
         (snd (CreateEntityValueExp go not_found demo_client ''favorite_city'' ''Barcelona'' ''Paella''
                 empty_world))) \<noteq> 200
   \<and> fst (CreateEntityValueExp go not_found demo_client ''favorite_city'' ''Barcelona'' ''Paella''
            empty_world) = (None, None)
   \<and> respStatus (reply not_found (snd (DeleteEntity not_found demo_client ''favorite_city'' empty_world))) \<noteq> 200
   \<and> fst (DeleteEntity not_found demo_client ''favorite_city'' empty_world) = (None, None)
   \<and> respStatus (reply not_found
         (snd (DeleteEntityValue not_found demo_client ''favorite_city'' ''Paris'' empty_world))) \<noteq> 200
   \<and> fst (DeleteEntityValue not_found demo_client ''favorite_city'' ''Paris'' empty_world) = (None, None)
   \<and> respStatus (reply not_found
         (snd (DeleteEntityValueExp go not_found demo_client ''favorite_city'' ''Paris'' ''City of Light''
                 empty_world))) \<noteq> 200
   \<and> fst (DeleteEntityValueExp go not_found demo_client ''favorite_city'' ''Paris'' ''City of Light''
            empty_world) = (None, None)
   \<and> respStatus (reply not_found (snd (UpdateEntity go not_found demo_client (Some 0) empty_world))) \<noteq> 200
   \<and> fst (UpdateEntity go not_found demo_client (Some 0) empty_world) = Return (None, None)"
  using non_200_status_gives_nil_result [of not_found go demo_client "Some 0" empty_world
      "''favorite_city''" "Some 0" "''Barcelona''" "''Paella''"]
    non_200_status_gives_nil_result [of not_found go demo_client "Some 0" empty_world
      "''favorite_city''" "Some 0" "''Paris''" "''City of Light''" 0]
  by (simp add: not_found_def reply_always respStatus_def respErr_def)

text \<open>
  Claim C1 as worded also names Entities and Entity, which discard the status code: a
  404 answer whose body is a JSON array and whose error is \<^verbatim>\<open>nil\<close> yields a populated list.
\<close>

theorem Entities_ignores_the_status_code:
  \<open>respStatus (reply misleading (snd (Entities go misleading demo_client empty_world))) \<noteq> 200
   \<and> fst (Entities go misleading demo_client empty_world) = (Some (Some [''wit$temperature'']), None)\<close>
  unfolding Entities_world reply_after Entities_value
  by (simp add: misleading_def always_def respStatus_def respErr_def respBody_def
      scan_defs decode_defs)

section \<open>Parse errors\<close>

text \<open>
  Claim C9.  Whenever the transport's GET returns a \<^verbatim>\<open>nil\<close> error, Entities and Entity
  return a \<^verbatim>\<open>nil\<close> error, whatever the status code and the body; and when the body fails
  to parse they return a \<^verbatim>\<open>nil\<close> result together with that \<^verbatim>\<open>nil\<close> error.
\<close>

theorem get_operations_return_a_nil_error:
  "(respErr (reply tr (snd (Entities lib tr client w))) = None \<longrightarrow>
      snd (fst (Entities lib tr client w)) = None
      \<and> (snd (parseEntities lib (respBody (reply tr (snd (Entities lib tr client w))))) \<noteq> None \<longrightarrow>
           fst (Entities lib tr client w) = (None, None)))
   \<and> (respErr (reply tr (snd (Entity lib tr client ident w))) = None \<longrightarrow>
      snd (fst (Entity lib tr client ident w)) = None
      \<and> (snd (parseEntity lib (respBody (reply tr (snd (Entity lib tr client ident w))))) \<noteq> None \<longrightarrow>
           fst (Entity lib tr client ident w) = (None, None)))"
  unfolding Entities_world Entity_world reply_after Entities_value Entity_value
  by (simp add: parseEntities_error parseEntity_error)

text \<open>A 200 answer whose body is not JSON: both parse helpers report a syntax error, both
  operations return \<^verbatim>\<open>nil, nil\<close>.\<close>

theorem get_operations_return_a_nil_error_witness:
  "respErr (reply garbled (snd (Entities go garbled demo_client empty_world))) = None
   \<and> snd (parseEntities go (respBody (reply garbled (snd (Entities go garbled demo_client empty_world)))))
       = Some SyntaxError
   \<and> fst (Entities go garbled demo_client empty_world) = (None, None)
   \<and> respErr (reply garbled (snd (Entity go garbled demo_client ''favorite_city'' empty_world))) = None
   \<and> snd (parseEntity go
             (respBody (reply garbled (snd (Entity go garbled demo_client ''favorite_city'' empty_world)))))
       = Some SyntaxError
   \<and> fst (Entity go garbled demo_client ''favorite_city'' empty_world) = (None, None)"
  using get_operations_return_a_nil_error [of garbled go demo_client empty_world "''favorite_city''"]
  by (simp add: garbled_def reply_always respErr_def respBody_def scan_defs decode_defs)

text \<open>
  Claim C2 says that a body that does not parse makes Entities and Entity return an
  error.  The code at such an input: the answer is 200 with a JSON array cut short; the
  parse helpers return the syntax error, and the operations return \<^verbatim>\<open>nil\<close> with a \<^verbatim>\<open>nil\<close>
  error.
\<close>

theorem parse_error_is_swallowed:
  \<open>parseEntities go (respBody (reply truncated (snd (Entities go truncated demo_client empty_world))))
     = (None, Some SyntaxError)
   \<and> fst (Entities go truncated demo_client empty_world) = (None, None)
   \<and> parseEntity go
        (respBody (reply truncated (snd (Entity go truncated demo_client ''favorite_city'' empty_world))))
     = (None, Some SyntaxError)
   \<and> fst (Entity go truncated demo_client ''favorite_city'' empty_world) = (None, None)\<close>
  unfolding Entities_world Entity_world reply_after Entities_value Entity_value
  by (simp add: truncated_def always_def respErr_def respBody_def scan_defs decode_defs)

section \<open>Serialization errors\<close>

text \<open>
  \<^verbatim>\<open>json.Marshal\<close> has no error for the types the client passes to it: a \<^verbatim>\<open>bool\<close>,
  strings and slices are always written.
\<close>

lemma json_Marshal_no_error: "snd (json_Marshal v) = None"
  by (simp add: json_Marshal_def split: marshalled.splits option.splits)

section \<open>Frame\<close>

text \<open>
  Claim C8.  For every input entity and every transport, CreateEntity and UpdateEntity
  leave every \<^verbatim>\<open>Entity\<close> and \<^verbatim>\<open>EntityValue\<close> object as it was, the input among them; what
  they return is \<^verbatim>\<open>nil\<close> with the transport's error, or the transport's byte slice with a
  \<^verbatim>\<open>nil\<close> error.
\<close>

theorem input_entity_is_not_mutated:
  "Entity_at (snd (CreateEntity lib tr client entity w)) = Entity_at w
   \<and> EntityValue_at (snd (CreateEntity lib tr client entity w)) = EntityValue_at w
   \<and> (fst (CreateEntity lib tr client entity w) =
         (None, respErr (reply tr (snd (CreateEntity lib tr client entity w))))
       \<or> fst (CreateEntity lib tr client entity w) =
         (respBody (reply tr (snd (CreateEntity lib tr client entity w))), None))
   \<and> Entity_at (snd (UpdateEntity lib tr client entity w)) = Entity_at w
   \<and> EntityValue_at (snd (UpdateEntity lib tr client entity w)) = EntityValue_at w
   \<and> (fst (UpdateEntity lib tr client (Some a) w) =
         Return (None, respErr (reply tr (snd (UpdateEntity lib tr client (Some a) w))))
       \<or> fst (UpdateEntity lib tr client (Some a) w) =
         Return (respBody (reply tr (snd (UpdateEntity lib tr client (Some a) w))), None))"
proof -
  have "Entity_at (snd (UpdateEntity lib tr client entity w)) = Entity_at w
        \<and> EntityValue_at (snd (UpdateEntity lib tr client entity w)) = EntityValue_at w"
    by (cases entity) (simp_all add: UpdateEntity_nil UpdateEntity_world)
  then show ?thesis
    unfolding CreateEntity_world UpdateEntity_world reply_after CreateEntity_value UpdateEntity_value
    by simp
qed

section \<open>Requests\<close>

text \<open>
  Claim C5.  For every id, value and expression, CreateEntityValueExp hands the transport
  exactly one request: a POST to the base URL followed by
  \<^verbatim>\<open>/entities/{id}/values/{value}/expressions\<close>, whose body is the expression itself, byte
  for byte.
\<close>

theorem CreateEntityValueExp_posts_the_raw_expression:
  "sent (snd (CreateEntityValueExp lib tr client ident val exp w)) =
     sent w @ [POST (ApiBase client @ ''/entities/'' @ ident @ ''/values/'' @ val @ ''/expressions'')
                 (Some exp)]"
  by (simp add: CreateEntityValueExp_world)

text \<open>
  Claim C10.  No operation checks its string arguments: for every id, value and
  expression, the empty string included, the operation hands the transport one request
  whose URL is the concatenation of the base URL, the fixed segments and the arguments
  (the expression of DeleteEntityValueExp escaped).  So DeleteEntity of the empty id
  addresses \<^verbatim>\<open>/entities/\<close> and CreateEntityValue of the empty id posts to
  \<^verbatim>\<open>/entities//values\<close>.
\<close>

theorem requests_are_built_by_concatenation:
  "sent (snd (DeleteEntity tr client ident w)) =
     sent w @ [DELETE (ApiBase client @ ''/entities/'') ident]
   \<and> sent (snd (DeleteEntityValue tr client ident val w)) =
       sent w @ [DELETE (ApiBase client @ ''/entities/'') (ident @ ''/values/'' @ val)]
   \<and> sent (snd (DeleteEntityValueExp lib tr client ident val exp w)) =
       sent w @ [DELETE (ApiBase client @ ''/entities/'')
                   (ident @ ''/values/'' @ val @ ''/expression/'' @ Escape lib exp)]
   \<and> sent (snd (CreateEntityValue lib tr client ident entityValue w)) =
       sent w @ [POST (ApiBase client @ ''/entities/'' @ ident @ ''/values'')
                   (fst (Marshal lib (EntityValuePtr (map_option (EntityValue_at w) entityValue))))]
   \<and> sent (snd (CreateEntityValueExp lib tr client ident val exp w)) =
       sent w @ [POST (ApiBase client @ ''/entities/'' @ ident @ ''/values/'' @ val @ ''/expressions'')
                   (Some exp)]
   \<and> sent (snd (Entity lib tr client ident w)) =
       sent w @ [GET (ApiBase client @ ''/entities/'' @ ident)]
   \<and> resource (last (sent (snd (DeleteEntity tr client [] w)))) = ApiBase client @ ''/entities/''
   \<and> resource (last (sent (snd (CreateEntityValue lib tr client [] entityValue w)))) =
       ApiBase client @ ''/entities//values''"
  unfolding DeleteEntity_world DeleteEntityValue_world DeleteEntityValueExp_world
    CreateEntityValue_world CreateEntityValueExp_world Entity_world
  by simp

lemma space_is_escaped: "shouldEscape (CHR '' '')"
  by (simp add: shouldEscape_def unreserved_def between_def byte_def)

lemma QueryEscape_by_char:
  "QueryEscape s = concat (map (\<lambda>c. if c = CHR '' '' then ''+'' else spec_percent_encode [c]) s)"
proof (induction s)
  case Nil
  show ?case by simp
next
  case (Cons c s)
  show ?case
  proof (cases "c = CHR '' ''")
    case True
    with Cons space_is_escaped show ?thesis by simp
  next
    case False
    with Cons show ?thesis by (simp add: shouldEscape_def)
  qed
qed

text \<open>
  Claim C4, as amended.  For every id, value and expression, DeleteEntityValueExp issues
  one DELETE whose resource path is the base URL followed by
  \<^verbatim>\<open>/entities/{id}/values/{value}/expression/{e}\<close> (singular \<^verbatim>\<open>expression\<close>), where
  \<^verbatim>\<open>{e}\<close> is \<^verbatim>\<open>url.QueryEscape\<close> of the expression: its percent-encoding, except that a
  space is written \<^verbatim>\<open>+\<close>.  With the empty expression the path ends in \<^verbatim>\<open>expression/\<close>.
\<close>

theorem DeleteEntityValueExp_path:
  "sent (snd (DeleteEntityValueExp go tr client ident val exp w)) =
     sent w @ [DELETE (ApiBase client @ ''/entities/'')
                 (ident @ ''/values/'' @ val @ ''/expression/'' @ QueryEscape exp)]
   \<and> resource (last (sent (snd (DeleteEntityValueExp go tr client ident val exp w)))) =
       ApiBase client @ ''/entities/'' @ ident @ ''/values/'' @ val @ ''/expression/'' @ QueryEscape exp
   \<and> QueryEscape exp =
       concat (map (\<lambda>c. if c = CHR '' '' then ''+'' else spec_percent_encode [c]) exp)
   \<and> resource (last (sent (snd (DeleteEntityValueExp go tr client ident val [] w)))) =
       ApiBase client @ ''/entities/'' @ ident @ ''/values/'' @ val @ ''/expression/''"
  unfolding DeleteEntityValueExp_world
  using QueryEscape_by_char [of exp] by (simp add: go_def)

text \<open>
  Claim C4 as worded fails on an expression with a space: the path carries
  \<^verbatim>\<open>City+of+Light\<close>, its percent-encoding is \<^verbatim>\<open>City%20of%20Light\<close>.
\<close>

theorem space_is_not_percent_encoded:
  "resource (last (sent (snd (DeleteEntityValueExp go not_found demo_client ''favorite_city'' ''Paris''
                                ''City of Light'' empty_world)))) =
     ''https://api.wit.ai/entities/favorite_city/values/Paris/expression/City+of+Light''
   \<and> spec_percent_encode ''City of Light'' = ''City%20of%20Light''
   \<and> resource (last (sent (snd (DeleteEntityValueExp go not_found demo_client ''favorite_city'' ''Paris''
                                ''City of Light'' empty_world)))) \<noteq>
     ApiBase demo_client @ ''/entities/favorite_city/values/Paris/expression/''
       @ spec_percent_encode ''City of Light''"
  unfolding DeleteEntityValueExp_world
  by (simp add: go_def demo_client_def shouldEscape_def unreserved_def between_def byte_def pct_def
      upperhex_def)

section \<open>Listing\<close>




section \<open>Round trip\<close>

subsection \<open>Encoding a rune that was decoded\<close>

text \<open>
  For a well-formed encoding, \<open>EncodeRune\<close> of the rune \<open>DecodeRune\<close> reads gives
  back the bytes read: the digits of the rune in base 64 are the low six bits of the
  bytes.
\<close>

lemma block:
  fixes b :: nat
  assumes "q * m \<le> b" "b < q * m + m"
  shows "b mod m = b - q * m" and "b div m = q"
proof -
  obtain d where d: "b = q * m + d" using assms(1) le_Suc_ex by blast
  with assms(2) have dm: "d < m" by simp
  from d dm show "b mod m = b - q * m" by simp
  from d dm show "b div m = q" by simp
qed

lemma digits2:
  fixes x0 x1 :: nat
  assumes "x1 < 64"
  shows "(x0 * 64 + x1) div 64 = x0" and "(x0 * 64 + x1) mod 64 = x1"
  using assms by simp_all

lemma digits3:
  fixes x0 x1 x2 :: nat
  assumes "x1 < 64" "x2 < 64"
  shows "(x0 * 4096 + x1 * 64 + x2) div 4096 = x0"
    and "((x0 * 4096 + x1 * 64 + x2) div 64) mod 64 = x1"
    and "(x0 * 4096 + x1 * 64 + x2) mod 64 = x2"
proof -
  let ?r = "x0 * 4096 + x1 * 64 + x2"
  show "?r div 4096 = x0"
    using block(2) [of x0 4096 ?r] assms by simp
  have "?r div 64 = x0 * 64 + x1"
    using block(2) [of "x0 * 64 + x1" 64 ?r] assms by simp
  then show "(?r div 64) mod 64 = x1" using assms by simp
  show "?r mod 64 = x2"
    using block(1) [of "x0 * 64 + x1" 64 ?r] assms by simp
qed

lemma digits4:
  fixes x0 x1 x2 x3 :: nat
  assumes "x1 < 64" "x2 < 64" "x3 < 64"
  shows "(x0 * 262144 + x1 * 4096 + x2 * 64 + x3) div 262144 = x0"
    and "((x0 * 262144 + x1 * 4096 + x2 * 64 + x3) div 4096) mod 64 = x1"
    and "((x0 * 262144 + x1 * 4096 + x2 * 64 + x3) div 64) mod 64 = x2"
    and "(x0 * 262144 + x1 * 4096 + x2 * 64 + x3) mod 64 = x3"
proof -
  let ?r = "x0 * 262144 + x1 * 4096 + x2 * 64 + x3"
  show "?r div 262144 = x0"
    using block(2) [of x0 262144 ?r] assms by simp
  have "?r div 4096 = x0 * 64 + x1"
    using block(2) [of "x0 * 64 + x1" 4096 ?r] assms by simp
  then show "(?r div 4096) mod 64 = x1" using assms by simp
  have "?r div 64 = x0 * 4096 + x1 * 64 + x2"
    using block(2) [of "(x0 * 64 + x1) * 64 + x2" 64 ?r] assms by simp
  then show "(?r div 64) mod 64 = x2" using digits3(3) [of x1 x2 x0] assms by simp
  show "?r mod 64 = x3"
    using block(1) [of "(x0 * 64 + x1) * 64 + x2" 64 ?r] assms by simp
qed

lemma low6:
  fixes b :: nat
  assumes "0x80 \<le> b" "b \<le> 0xBF"
  obtains x where "b = 128 + x" "x < 64" "b mod 64 = x"
proof -
  obtain x where x: "b = 128 + x" using assms(1) le_Suc_ex by auto
  with assms(2) have "x < 64" by simp
  moreover from this x have "b mod 64 = x" using block(1) [of 2 64 b] by simp
  ultimately show ?thesis using x that by blast
qed

lemma char_of_byte: "char_of (byte c) = c"
  by (simp add: byte_def)

lemma byte_char_of: "n < 256 \<Longrightarrow> byte (char_of n) = n"
  by (simp add: byte_def)

lemma is_cont_low6:
  assumes "is_cont c"
  obtains x where "byte c = 128 + x" "x < 64" "byte c mod 64 = x"
  using assms low6 [of "byte c"] by (auto simp: is_cont_def)

lemma accepts_is_cont: "accepts b0 c \<Longrightarrow> is_cont c"
  by (auto simp: accepts_def accept_lo_def accept_hi_def is_cont_def split: if_splits)

lemma decode2:
  assumes b0: "0xC2 \<le> byte c" "byte c \<le> 0xDF" and c1: "is_cont c1"
  shows "DecodeRune (c # c1 # ys) = ((byte c mod 32) * 64 + byte c1 mod 64, 2)"
    and "EncodeRune ((byte c mod 32) * 64 + byte c1 mod 64) = [c, c1]"
proof -
  show "DecodeRune (c # c1 # ys) = ((byte c mod 32) * 64 + byte c1 mod 64, 2)"
    using b0 c1 by (simp add: Let_def)
  obtain x0 where x0: "byte c = 192 + x0" using b0(1) le_Suc_ex [of 192 "byte c"] by auto
  with b0 have x0r: "2 \<le> x0" "x0 < 32" by simp_all
  have m0: "byte c mod 32 = x0" using block(1) [of 6 32 "byte c"] x0 x0r by simp
  from c1 obtain x1 where x1: "byte c1 = 128 + x1" "x1 < 64" "byte c1 mod 64 = x1"
    by (rule is_cont_low6)
  let ?r = "x0 * 64 + x1"
  have lo: "\<not> ?r \<le> 0x7F" using x0r by simp
  have hi: "?r \<le> 0x7FF" using x0r x1 by simp
  have d: "?r div 64 = x0" "?r mod 64 = x1" using digits2 [of x1 x0] x1 by simp_all
  have "EncodeRune ?r = [char_of (0xC0 + ?r div 64), char_of (0x80 + ?r mod 64)]"
    using lo hi by (simp only: EncodeRune_def if_True if_False)
  also have "\<dots> = [char_of (byte c), char_of (byte c1)]"
    unfolding d x0 x1(1) by simp
  finally show "EncodeRune ((byte c mod 32) * 64 + byte c1 mod 64) = [c, c1]"
    unfolding m0 x1(3) by (simp add: char_of_byte)
qed

lemma decode3:
  assumes b0: "0xE0 \<le> byte c" "byte c \<le> 0xEF" and c1: "accepts (byte c) c1" and c2: "is_cont c2"
  shows "DecodeRune (c # c1 # c2 # ys) =
           ((byte c mod 16) * 4096 + (byte c1 mod 64) * 64 + byte c2 mod 64, 3)"
    and "EncodeRune ((byte c mod 16) * 4096 + (byte c1 mod 64) * 64 + byte c2 mod 64) = [c, c1, c2]"
proof -
  show "DecodeRune (c # c1 # c2 # ys) =
           ((byte c mod 16) * 4096 + (byte c1 mod 64) * 64 + byte c2 mod 64, 3)"
    using b0 c1 c2 by (simp add: Let_def)
  obtain x0 where x0: "byte c = 224 + x0" using b0(1) le_Suc_ex [of 224 "byte c"] by auto
  with b0 have x0r: "x0 < 16" by simp
  have m0: "byte c mod 16 = x0" using block(1) [of 14 16 "byte c"] x0 x0r by simp
  from c1 have "is_cont c1" by (rule accepts_is_cont)
  then obtain x1 where x1: "byte c1 = 128 + x1" "x1 < 64" "byte c1 mod 64 = x1"
    by (rule is_cont_low6)
  from c2 obtain x2 where x2: "byte c2 = 128 + x2" "x2 < 64" "byte c2 mod 64 = x2"
    by (rule is_cont_low6)
  let ?r = "x0 * 4096 + x1 * 64 + x2"
  have a0: "x0 = 0 \<Longrightarrow> 32 \<le> x1"
    using c1 x0 x1 by (simp add: accepts_def accept_lo_def)
  have a13: "x0 = 13 \<Longrightarrow> x1 \<le> 31"
    using c1 x0 x1 by (simp add: accepts_def accept_hi_def accept_lo_def)
  have lo: "\<not> ?r \<le> 0x7F" "\<not> ?r \<le> 0x7FF" using a0 by (cases "x0 = 0"; simp)+
  have max: "\<not> MaxRune < ?r" using x0r x1 x2 by (simp add: MaxRune_def)
  have sur: "\<not> (0xD800 \<le> ?r \<and> ?r \<le> 0xDFFF)"
  proof (cases "x0 = 13")
    case True
    with a13 x2 show ?thesis by simp
  next
    case False
    then consider "x0 < 13" | "13 < x0" by linarith
    then show ?thesis
    proof cases
      case 1
      with x1 x2 show ?thesis by simp
    next
      case 2
      then show ?thesis by simp
    qed
  qed
  have hi: "?r \<le> 0xFFFF" using x0r x1 x2 by simp
  have d: "?r div 4096 = x0" "(?r div 64) mod 64 = x1" "?r mod 64 = x2"
    using digits3 [of x1 x2 x0] x1 x2 by simp_all
  have "EncodeRune ?r = encode3 ?r"
    using lo max sur hi by (simp only: EncodeRune_def if_True if_False simp_thms)
  also have "\<dots> = [char_of (byte c), char_of (byte c1), char_of (byte c2)]"
    unfolding encode3_def d x0 x1(1) x2(1) by simp
  finally show "EncodeRune ((byte c mod 16) * 4096 + (byte c1 mod 64) * 64 + byte c2 mod 64)
                 = [c, c1, c2]"
    unfolding m0 x1(3) x2(3) by (simp add: char_of_byte)
qed

lemma decode4:
  assumes b0: "0xF0 \<le> byte c" "byte c \<le> 0xF4" and c1: "accepts (byte c) c1"
    and c2: "is_cont c2" and c3: "is_cont c3"
  shows "DecodeRune (c # c1 # c2 # c3 # ys) =
           ((byte c mod 8) * 262144 + (byte c1 mod 64) * 4096 + (byte c2 mod 64) * 64
            + byte c3 mod 64, 4)"
    and "EncodeRune ((byte c mod 8) * 262144 + (byte c1 mod 64) * 4096 + (byte c2 mod 64) * 64
            + byte c3 mod 64) = [c, c1, c2, c3]"
proof -
  show "DecodeRune (c # c1 # c2 # c3 # ys) =
           ((byte c mod 8) * 262144 + (byte c1 mod 64) * 4096 + (byte c2 mod 64) * 64
            + byte c3 mod 64, 4)"
    using b0 c1 c2 c3 by (simp add: Let_def)
  obtain x0 where x0: "byte c = 240 + x0" using b0(1) le_Suc_ex [of 240 "byte c"] by auto
  with b0 have x0r: "x0 \<le> 4" by simp
  have m0: "byte c mod 8 = x0" using block(1) [of 30 8 "byte c"] x0 x0r by simp
  from c1 have "is_cont c1" by (rule accepts_is_cont)
  then obtain x1 where x1: "byte c1 = 128 + x1" "x1 < 64" "byte c1 mod 64 = x1"
    by (rule is_cont_low6)
  from c2 obtain x2 where x2: "byte c2 = 128 + x2" "x2 < 64" "byte c2 mod 64 = x2"
    by (rule is_cont_low6)
  from c3 obtain x3 where x3: "byte c3 = 128 + x3" "x3 < 64" "byte c3 mod 64 = x3"
    by (rule is_cont_low6)
  let ?r = "x0 * 262144 + x1 * 4096 + x2 * 64 + x3"
  have a0: "x0 = 0 \<Longrightarrow> 16 \<le> x1"
    using c1 x0 x1 by (simp add: accepts_def accept_lo_def)
  have a4: "x0 = 4 \<Longrightarrow> x1 \<le> 15"
    using c1 x0 x1 by (simp add: accepts_def accept_hi_def accept_lo_def)
  have lo: "\<not> ?r \<le> 0x7F" "\<not> ?r \<le> 0x7FF" "\<not> ?r \<le> 0xFFFF" "\<not> ?r \<le> 0xDFFF"
    using a0 by (cases "x0 = 0"; simp)+
  have max: "\<not> MaxRune < ?r"
  proof (cases "x0 = 4")
    case True
    with a4 x2 x3 show ?thesis by (simp add: MaxRune_def)
  next
    case False
    with x0r have "x0 \<le> 3" by simp
    with x1 x2 x3 show ?thesis by (simp add: MaxRune_def)
  qed
  have d: "?r div 262144 = x0" "(?r div 4096) mod 64 = x1" "(?r div 64) mod 64 = x2" "?r mod 64 = x3"
    using digits4 [of x1 x2 x3 x0] x1 x2 x3 by simp_all
  have "EncodeRune ?r =
          [char_of (0xF0 + ?r div 262144), char_of (0x80 + (?r div 4096) mod 64),
           char_of (0x80 + (?r div 64) mod 64), char_of (0x80 + ?r mod 64)]"
    using lo max by (simp only: EncodeRune_def if_True if_False simp_thms)
  also have "\<dots> = [char_of (byte c), char_of (byte c1), char_of (byte c2), char_of (byte c3)]"
    unfolding d x0 x1(1) x2(1) x3(1) by simp
  finally show "EncodeRune ((byte c mod 8) * 262144 + (byte c1 mod 64) * 4096
                  + (byte c2 mod 64) * 64 + byte c3 mod 64) = [c, c1, c2, c3]"
    unfolding m0 x1(3) x2(3) x3(3) by (simp add: char_of_byte)
qed

subsection \<open>An escaped string is scanned and unquoted to the coerced string\<close>

text \<open>
  Each step of the escaping loop writes a piece that the string scanner copies and that
  unquoting turns back into the bytes the step consumed, or into U+FFFD for a malformed
  byte.
\<close>

lemma byte_consts:
  "byte dquote = 34" "byte backslash = 92"
  by (simp_all add: byte_def dquote_def backslash_def)

lemma hi_not_special:
  assumes "0x80 \<le> byte x"
  shows "x \<noteq> dquote" "x \<noteq> backslash" "\<not> byte x < 0x20" "\<not> byte x < 0x80"
  using assms byte_consts by auto

lemma DecodeRune_multibyte:
  assumes d: "DecodeRune (c # cs) = (r, sz)" and hi: "0x80 \<le> byte c"
    and ok: "\<not> (r = RuneError \<and> sz = 1)"
  shows "\<exists>pre rest. c # cs = pre @ rest \<and> length pre = sz \<and> 2 \<le> sz \<and> EncodeRune r = pre
           \<and> list_all (\<lambda>x. 0x80 \<le> byte x) pre \<and> (\<forall>ys. DecodeRune (pre @ ys) = (r, sz))"
proof -
  have nlo: "\<not> byte c < 0x80" using hi by simp
  consider (two) "0xC2 \<le> byte c" "byte c \<le> 0xDF"
    | (three) "0xE0 \<le> byte c" "byte c \<le> 0xEF"
    | (four) "0xF0 \<le> byte c" "byte c \<le> 0xF4"
    | (bad) "byte c < 0xC2 \<or> 0xF4 < byte c"
    by linarith
  then show ?thesis
  proof cases
    case two
    from d nlo two ok obtain c1 cs' where cs: "cs = c1 # cs'" and c1: "is_cont c1"
      by (cases cs) (auto simp: Let_def split: if_splits)
    from decode2 [OF two c1] d cs
    have r: "r = (byte c mod 32) * 64 + byte c1 mod 64" "sz = 2"
      and e: "EncodeRune r = [c, c1]"
      and a: "\<And>ys. DecodeRune ([c, c1] @ ys) = (r, sz)"
      by simp_all
    have "list_all (\<lambda>x. 0x80 \<le> byte x) [c, c1]" using hi c1 by (simp add: is_cont_def)
    with r e a cs show ?thesis by (intro exI [of _ "[c, c1]"] exI [of _ cs']) simp
  next
    case three
    have n2: "\<not> (0xC2 \<le> byte c \<and> byte c \<le> 0xDF)" using three by simp
    from d nlo n2 three ok obtain c1 c2 cs' where cs: "cs = c1 # c2 # cs'"
      and c1: "accepts (byte c) c1" and c2: "is_cont c2"
      by (cases cs; cases "tl cs") (auto simp: Let_def split: if_splits)
    from decode3 [OF three c1 c2] d cs
    have r: "r = (byte c mod 16) * 4096 + (byte c1 mod 64) * 64 + byte c2 mod 64" "sz = 3"
      and e: "EncodeRune r = [c, c1, c2]"
      and a: "\<And>ys. DecodeRune ([c, c1, c2] @ ys) = (r, sz)"
      by simp_all
    have "list_all (\<lambda>x. 0x80 \<le> byte x) [c, c1, c2]"
      using hi accepts_is_cont [OF c1] c2 by (simp add: is_cont_def)
    with r e a cs show ?thesis by (intro exI [of _ "[c, c1, c2]"] exI [of _ cs']) simp
  next
    case four
    have n2: "\<not> (0xC2 \<le> byte c \<and> byte c \<le> 0xDF)" "\<not> (0xE0 \<le> byte c \<and> byte c \<le> 0xEF)"
      using four by simp_all
    from d nlo n2 four ok obtain c1 c2 c3 cs' where cs: "cs = c1 # c2 # c3 # cs'"
      and c1: "accepts (byte c) c1" and c2: "is_cont c2" and c3: "is_cont c3"
      by (cases cs; cases "tl cs"; cases "tl (tl cs)") (auto simp: Let_def split: if_splits)
    from decode4 [OF four c1 c2 c3] d cs
    have r: "sz = 4"
      and e: "EncodeRune r = [c, c1, c2, c3]"
      and a: "\<And>ys. DecodeRune ([c, c1, c2, c3] @ ys) = (r, sz)"
      by simp_all
    have "list_all (\<lambda>x. 0x80 \<le> byte x) [c, c1, c2, c3]"
      using hi accepts_is_cont [OF c1] c2 c3 by (simp add: is_cont_def)
    with r e a cs show ?thesis by (intro exI [of _ "[c, c1, c2, c3]"] exI [of _ cs']) simp
  next
    case bad
    with d nlo ok show ?thesis by (auto simp: Let_def split: if_splits)
  qed
qed

lemma scans_hi:
  "list_all (\<lambda>x. 0x80 \<le> byte x) pre \<Longrightarrow> scans pre"
proof (induction pre)
  case Nil
  show ?case by (simp add: scans_def option.map_ident split_def)
next
  case (Cons x pre)
  then have hi: "0x80 \<le> byte x" and IH: "scans pre" by simp_all
  show ?case
    unfolding scans_def
  proof
    fix X
    have "scanString ((x # pre) @ X) = map_option (\<lambda>(lit, rest). (x # lit, rest)) (scanString (pre @ X))"
      using hi_not_special [OF hi] by simp
    also have "\<dots> = map_option (\<lambda>(lit, rest). ((x # pre) @ lit, rest)) (scanString X)"
      using IH by (cases "scanString X") (auto simp: scans_def)
    finally show "scanString ((x # pre) @ X) =
        map_option (\<lambda>(lit, rest). ((x # pre) @ lit, rest)) (scanString X)" .
  qed
qed

lemma hex_digit:
  assumes "n < 16"
  shows "hexval (hex n) = Some n" and "isHex (hex n)"
proof -
  from assms have "n \<in> {0, 1, 2, 3, 4, 5, 6, 7, 8, 9, 10, 11, 12, 13, 14, 15}"
    unfolding insert_iff empty_iff by arith
  then show "hexval (hex n) = Some n" and "isHex (hex n)"
    by (auto simp: hex_def hexval_def isHex_def between_def byte_def)
qed

lemmas char_defs = dquote_def backslash_def byte_def between_def

lemma piece_safe:
  assumes "htmlSafe c"
  shows "scans [c]" and "unquotes [c] [c]"
proof -
  from assms have f: "c \<noteq> dquote" "c \<noteq> backslash" "\<not> byte c < 0x20" "byte c < 0x80"
    by (simp_all add: htmlSafe_def)
  show "scans [c]" unfolding scans_def using f by simp
  have "\<And>X. unquote ([c] @ X) = map_option ((@) [c]) (unquote X)"
    using f by (simp add: option.map_comp comp_def cong: option.map_cong)
  then show "unquotes [c] [c]" by (simp add: unquotes_def)
qed

lemma getu4_00:
  assumes "n < 256"
  shows "getu4 (backslash # CHR ''u'' # CHR ''0'' # CHR ''0'' # hex (n div 16) # hex (n mod 16) # X)
         = Some n"
proof -
  from assms have d: "n div 16 < 16" by simp
  have z: "hexval (CHR ''0'') = Some 0" by (simp add: hexval_def char_defs)
  show ?thesis
    by (simp add: getu4_def z hex_digit(1) [OF d] hex_digit(1) [of "n mod 16"])
qed

lemma byte_less_256: "byte c < 256"
  by (simp add: byte_def)

lemma special_chars:
  "backslash \<noteq> dquote" "CHR ''u'' \<noteq> dquote" "CHR ''u'' \<noteq> backslash"
  "\<not> simpleEscape (CHR ''u'')" "CHR ''u'' \<noteq> CHR ''/''" "CHR ''u'' \<noteq> CHR 0x27"
  "CHR ''u'' \<noteq> CHR ''b''" "CHR ''u'' \<noteq> CHR ''f''" "CHR ''u'' \<noteq> CHR ''n''"
  "CHR ''u'' \<noteq> CHR ''r''" "CHR ''u'' \<noteq> CHR ''t''"
  by (simp_all add: simpleEscape_def char_defs)

lemma piece_u00:
  assumes lo: "byte c < 0x80"
  shows "scans [backslash, CHR ''u'', CHR ''0'', CHR ''0'', hex (byte c div 16), hex (byte c mod 16)]"
    and "unquotes [backslash, CHR ''u'', CHR ''0'', CHR ''0'', hex (byte c div 16), hex (byte c mod 16)] [c]"
proof -
  let ?h = "hex (byte c div 16)" and ?l = "hex (byte c mod 16)"
  have d: "byte c div 16 < 16" using lo by simp
  have hx: "isHex ?h" "isHex ?l" "isHex (CHR ''0'')"
    using hex_digit(2) [OF d] hex_digit(2) [of "byte c mod 16"]
    by (simp_all add: isHex_def char_defs)
  show "scans [backslash, CHR ''u'', CHR ''0'', CHR ''0'', ?h, ?l]"
    unfolding scans_def using hx special_chars by simp
  have g: "\<And>X. getu4 (backslash # CHR ''u'' # CHR ''0'' # CHR ''0'' # ?h # ?l # X) = Some (byte c)"
    using getu4_00 [OF byte_less_256] .
  have ns: "\<not> IsSurrogate (byte c)" using lo by (simp add: IsSurrogate_def)
  have en: "EncodeRune (byte c) = [c]" using lo by (simp add: EncodeRune_def char_of_byte)
  have "\<And>X. unquote ([backslash, CHR ''u'', CHR ''0'', CHR ''0'', ?h, ?l] @ X)
          = map_option ((@) [c]) (unquote X)"
    using g ns en special_chars by simp
  then show "unquotes [backslash, CHR ''u'', CHR ''0'', CHR ''0'', ?h, ?l] [c]"
    by (simp add: unquotes_def)
qed

lemma piece_simple:
  assumes se: "simpleEscape e"
    and un: "\<And>X. unquote (backslash # e # X) = map_option ((#) c) (unquote X)"
  shows "scans [backslash, e]" and "unquotes [backslash, e] [c]"
proof -
  show "scans [backslash, e]"
    unfolding scans_def using se special_chars(1) by simp
  show "unquotes [backslash, e] [c]"
    unfolding unquotes_def using un by (simp add: option.map_comp comp_def cong: option.map_cong)
qed

lemma piece_escapeByte:
  assumes lo: "byte c < 0x80"
  shows "scans (escapeByte c)" and "unquotes (escapeByte c) [c]"
proof -
  consider (q) "c = backslash \<or> c = dquote"
    | (b) "c \<noteq> backslash" "c \<noteq> dquote" "c = CHR 0x08"
    | (f) "c \<noteq> backslash" "c \<noteq> dquote" "c = CHR 0x0C"
    | (n) "c \<noteq> backslash" "c \<noteq> dquote" "c = CHR 0x0A"
    | (r) "c \<noteq> backslash" "c \<noteq> dquote" "c = CHR 0x0D"
    | (t) "c \<noteq> backslash" "c \<noteq> dquote" "c = CHR 0x09"
    | (u) "c \<noteq> backslash" "c \<noteq> dquote" "c \<noteq> CHR 0x08" "c \<noteq> CHR 0x0C" "c \<noteq> CHR 0x0A"
          "c \<noteq> CHR 0x0D" "c \<noteq> CHR 0x09"
    by blast
  then have "scans (escapeByte c) \<and> unquotes (escapeByte c) [c]"
  proof cases
    case q
    then have e: "escapeByte c = [backslash, c]" by (simp add: escapeByte_def)
    from q have se: "simpleEscape c" by (auto simp: simpleEscape_def)
    from q have "\<And>X. unquote (backslash # c # X) = map_option ((#) c) (unquote X)" by auto
    from piece_simple [OF se this] e show ?thesis by simp
  next
    case b
    then have e: "escapeByte c = [backslash, CHR ''b'']" by (simp add: escapeByte_def)
    have se: "simpleEscape (CHR ''b'')" by (simp add: simpleEscape_def)
    have "\<And>X. unquote (backslash # CHR ''b'' # X) = map_option ((#) c) (unquote X)"
      using b(3) by (simp add: char_defs)
    from piece_simple [OF se this] e show ?thesis by simp
  next
    case f
    then have e: "escapeByte c = [backslash, CHR ''f'']" by (simp add: escapeByte_def)
    have se: "simpleEscape (CHR ''f'')" by (simp add: simpleEscape_def)
    have "\<And>X. unquote (backslash # CHR ''f'' # X) = map_option ((#) c) (unquote X)"
      using f(3) by (simp add: char_defs)
    from piece_simple [OF se this] e show ?thesis by simp
  next
    case n
    then have e: "escapeByte c = [backslash, CHR ''n'']" by (simp add: escapeByte_def)
    have se: "simpleEscape (CHR ''n'')" by (simp add: simpleEscape_def)
    have "\<And>X. unquote (backslash # CHR ''n'' # X) = map_option ((#) c) (unquote X)"
      using n(3) by (simp add: char_defs)
    from piece_simple [OF se this] e show ?thesis by simp
  next
    case r
    then have e: "escapeByte c = [backslash, CHR ''r'']" by (simp add: escapeByte_def)
    have se: "simpleEscape (CHR ''r'')" by (simp add: simpleEscape_def)
    have "\<And>X. unquote (backslash # CHR ''r'' # X) = map_option ((#) c) (unquote X)"
      using r(3) by (simp add: char_defs)
    from piece_simple [OF se this] e show ?thesis by simp
  next
    case t
    then have e: "escapeByte c = [backslash, CHR ''t'']" by (simp add: escapeByte_def)
    have se: "simpleEscape (CHR ''t'')" by (simp add: simpleEscape_def)
    have "\<And>X. unquote (backslash # CHR ''t'' # X) = map_option ((#) c) (unquote X)"
      using t(3) by (simp add: char_defs)
    from piece_simple [OF se this] e show ?thesis by simp
  next
    case u
    then have e: "escapeByte c =
        [backslash, CHR ''u'', CHR ''0'', CHR ''0'', hex (byte c div 16), hex (byte c mod 16)]"
      by (simp add: escapeByte_def)
    from piece_u00 [OF lo] show ?thesis unfolding e by simp
  qed
  then show "scans (escapeByte c)" and "unquotes (escapeByte c) [c]" by simp_all
qed

lemma getu4_value:
  assumes "hexval h1 = Some x1" "hexval h2 = Some x2" "hexval h3 = Some x3" "hexval h4 = Some x4"
  shows "getu4 (backslash # CHR ''u'' # h1 # h2 # h3 # h4 # X)
         = Some (((x1 * 16 + x2) * 16 + x3) * 16 + x4)"
  using assms by (simp add: getu4_def)

lemma piece_u:
  assumes hx: "isHex h1" "isHex h2" "isHex h3" "isHex h4"
    and g: "\<And>X. getu4 (backslash # CHR ''u'' # h1 # h2 # h3 # h4 # X) = Some v"
    and ns: "\<not> IsSurrogate v"
  shows "scans [backslash, CHR ''u'', h1, h2, h3, h4]"
    and "unquotes [backslash, CHR ''u'', h1, h2, h3, h4] (EncodeRune v)"
proof -
  show "scans [backslash, CHR ''u'', h1, h2, h3, h4]"
    unfolding scans_def using hx special_chars by simp
  have "\<And>X. unquote ([backslash, CHR ''u'', h1, h2, h3, h4] @ X)
          = map_option ((@) (EncodeRune v)) (unquote X)"
    using g ns special_chars by simp
  then show "unquotes [backslash, CHR ''u'', h1, h2, h3, h4] (EncodeRune v)"
    by (simp add: unquotes_def)
qed

lemma hex_chars:
  "isHex (CHR ''0'')" "isHex (CHR ''2'')" "isHex (CHR ''8'')" "isHex (CHR ''9'')"
  "isHex (CHR ''f'')" "isHex (CHR ''d'')"
  "hexval (CHR ''0'') = Some 0" "hexval (CHR ''2'') = Some 2" "hexval (CHR ''8'') = Some 8"
  "hexval (CHR ''9'') = Some 9" "hexval (CHR ''f'') = Some 15" "hexval (CHR ''d'') = Some 13"
  by (simp_all add: isHex_def hexval_def char_defs)

lemma piece_ufffd:
  "scans [backslash, CHR ''u'', CHR ''f'', CHR ''f'', CHR ''f'', CHR ''d'']"
  "unquotes [backslash, CHR ''u'', CHR ''f'', CHR ''f'', CHR ''f'', CHR ''d''] (EncodeRune RuneError)"
proof -
  have g: "\<And>X. getu4 (backslash # CHR ''u'' # CHR ''f'' # CHR ''f'' # CHR ''f'' # CHR ''d'' # X)
             = Some RuneError"
    using getu4_value [OF hex_chars(11) hex_chars(11) hex_chars(11) hex_chars(12)]
    by (simp add: RuneError_def)
  have ns: "\<not> IsSurrogate RuneError" by (simp add: IsSurrogate_def RuneError_def)
  from piece_u [OF hex_chars(5) hex_chars(5) hex_chars(5) hex_chars(6) g ns]
  show "scans [backslash, CHR ''u'', CHR ''f'', CHR ''f'', CHR ''f'', CHR ''d'']"
    and "unquotes [backslash, CHR ''u'', CHR ''f'', CHR ''f'', CHR ''f'', CHR ''d''] (EncodeRune RuneError)"
    by simp_all
qed

lemma piece_u202:
  assumes "r = 0x2028 \<or> r = 0x2029"
  shows "scans [backslash, CHR ''u'', CHR ''2'', CHR ''0'', CHR ''2'', hex (r mod 16)]"
    and "unquotes [backslash, CHR ''u'', CHR ''2'', CHR ''0'', CHR ''2'', hex (r mod 16)] (EncodeRune r)"
proof -
  have m: "r mod 16 < 16" by simp
  have v: "((2 * 16 + 0) * 16 + 2) * 16 + r mod 16 = r" using assms by auto
  have g: "\<And>X. getu4 (backslash # CHR ''u'' # CHR ''2'' # CHR ''0'' # CHR ''2'' # hex (r mod 16) # X)
             = Some r"
    using getu4_value [OF hex_chars(8) hex_chars(7) hex_chars(8) hex_digit(1) [OF m]] v by simp
  have ns: "\<not> IsSurrogate r" using assms by (auto simp: IsSurrogate_def)
  from piece_u [OF hex_chars(2) hex_chars(1) hex_chars(2) hex_digit(2) [OF m] g ns]
  show "scans [backslash, CHR ''u'', CHR ''2'', CHR ''0'', CHR ''2'', hex (r mod 16)]"
    and "unquotes [backslash, CHR ''u'', CHR ''2'', CHR ''0'', CHR ''2'', hex (r mod 16)] (EncodeRune r)"
    by simp_all
qed

lemma piece_multibyte:
  assumes hi: "list_all (\<lambda>x. 0x80 \<le> byte x) pre" and len: "length pre = sz" "2 \<le> sz"
    and d: "\<And>ys. DecodeRune (pre @ ys) = (r, sz)" and e: "EncodeRune r = pre"
  shows "scans pre" and "unquotes pre pre"
proof -
  show "scans pre" using hi by (rule scans_hi)
  from len obtain c pre' where pre: "pre = c # pre'" by (cases pre) auto
  with hi have c: "0x80 \<le> byte c" by simp
  have l: "length pre' = sz - 1" using len pre by simp
  have "\<And>X. unquote (pre @ X) = map_option ((@) pre) (unquote X)"
  proof -
    fix X
    have "DecodeRune (c # pre' @ X) = (r, sz)" using d [of X] pre by simp
    then show "unquote (pre @ X) = map_option ((@) pre) (unquote X)"
      using hi_not_special [OF c] e l unfolding pre by simp
  qed
  then show "unquotes pre pre" by (simp add: unquotes_def)
qed

lemma DecodeRune_ascii: "byte c < 0x80 \<Longrightarrow> DecodeRune (c # cs) = (byte c, 1)"
  by (simp add: Let_def)

lemma DecodeRune_size: "DecodeRune (c # cs) = (r, sz) \<Longrightarrow> 1 \<le> sz"
  by (auto simp: Let_def split: if_splits list.splits)

lemma ToValidUTF8_ascii: "byte c < 0x80 \<Longrightarrow> ToValidUTF8 (c # cs) = [c] @ ToValidUTF8 cs"
  by (simp add: DecodeRune_ascii RuneError_def del: DecodeRune.simps)

lemma ToValidUTF8_valid:
  assumes "DecodeRune (c # cs) = (r, sz)" "\<not> (r = RuneError \<and> sz = 1)"
  shows "ToValidUTF8 (c # cs) = take sz (c # cs) @ ToValidUTF8 (drop (sz - 1) cs)"
  using assms by (auto simp del: DecodeRune.simps)

lemma escapeString_valid:
  assumes "\<not> byte c < 0x80" "DecodeRune (c # cs) = (r, sz)" "\<not> (r = RuneError \<and> sz = 1)"
  shows "escapeString (c # cs) =
           (if r = 0x2028 \<or> r = 0x2029
            then [backslash, CHR ''u'', CHR ''2'', CHR ''0'', CHR ''2'', hex (r mod 16)]
                 @ escapeString (drop (sz - 1) cs)
            else take sz (c # cs) @ escapeString (drop (sz - 1) cs))"
  using assms by (auto simp del: DecodeRune.simps)

lemma escape_step:
  "\<exists>p q t. escapeString (c # cs) = p @ escapeString t \<and> ToValidUTF8 (c # cs) = q @ ToValidUTF8 t
     \<and> length t \<le> length cs \<and> scans p \<and> unquotes p q"
proof (cases "byte c < 0x80")
  case True
  show ?thesis
  proof (cases "htmlSafe c")
    case safe: True
    have "escapeString (c # cs) = [c] @ escapeString cs" using True safe by simp
    with ToValidUTF8_ascii [OF True] piece_safe [OF safe] show ?thesis by blast
  next
    case False
    have "escapeString (c # cs) = escapeByte c @ escapeString cs" using True False by simp
    with ToValidUTF8_ascii [OF True] piece_escapeByte [OF True] show ?thesis by blast
  qed
next
  case False
  then have hi: "0x80 \<le> byte c" by simp
  obtain r sz where d: "DecodeRune (c # cs) = (r, sz)" by (cases "DecodeRune (c # cs)")
  show ?thesis
  proof (cases "r = RuneError \<and> sz = 1")
    case True
    have "escapeString (c # cs) =
            [backslash, CHR ''u'', CHR ''f'', CHR ''f'', CHR ''f'', CHR ''d''] @ escapeString cs"
      using False d True by (simp del: DecodeRune.simps)
    moreover have "ToValidUTF8 (c # cs) = EncodeRune RuneError @ ToValidUTF8 cs"
      using d True by (simp del: DecodeRune.simps)
    ultimately show ?thesis using piece_ufffd by blast
  next
    case ok: False
    from DecodeRune_multibyte [OF d hi ok] obtain pre rest where
      split: "c # cs = pre @ rest" and len: "length pre = sz" "2 \<le> sz" and e: "EncodeRune r = pre"
      and his: "list_all (\<lambda>x. 0x80 \<le> byte x) pre" and dd: "\<And>ys. DecodeRune (pre @ ys) = (r, sz)"
      by blast
    from len obtain pre' where pre: "pre = c # pre'" using split by (cases pre) auto
    with split len have cs: "cs = pre' @ rest" and l: "length pre' = sz - 1" by simp_all
    have tk: "take sz (c # cs) = pre" using split len by simp
    have dr: "drop (sz - 1) cs = rest" using cs l by simp
    have lr: "length rest \<le> length cs" using cs by simp
    have tv: "ToValidUTF8 (c # cs) = pre @ ToValidUTF8 rest"
      using ToValidUTF8_valid [OF d ok] tk dr by simp
    show ?thesis
    proof (cases "r = 0x2028 \<or> r = 0x2029")
      case True
      have "escapeString (c # cs) =
              [backslash, CHR ''u'', CHR ''2'', CHR ''0'', CHR ''2'', hex (r mod 16)] @ escapeString rest"
        using escapeString_valid [OF False d ok] True dr by simp
      with tv piece_u202 [OF True] e lr show ?thesis by blast
    next
      case other: False
      have "escapeString (c # cs) = pre @ escapeString rest"
        using escapeString_valid [OF False d ok] other dr tk by simp
      with tv piece_multibyte [OF his len dd e] lr show ?thesis by blast
    qed
  qed
qed

lemma scanString_escapeString:
  "scanString (escapeString s @ dquote # rest) = Some (escapeString s, rest)"
proof (induction "length s" arbitrary: s rule: less_induct)
  case less
  show ?case
  proof (cases s)
    case Nil
    then show ?thesis by simp
  next
    case (Cons c cs)
    from escape_step [of c cs] obtain p q t where
      e: "escapeString (c # cs) = p @ escapeString t" and l: "length t \<le> length cs" and s: "scans p"
      by blast
    from l Cons have "length t < length s" by simp
    from less [OF this] have IH: "scanString (escapeString t @ dquote # rest) = Some (escapeString t, rest)" .
    from s have "scanString (p @ escapeString t @ dquote # rest) =
        map_option (\<lambda>(lit, rest). (p @ lit, rest)) (scanString (escapeString t @ dquote # rest))"
      by (simp add: scans_def)
    with IH e Cons show ?thesis by simp
  qed
qed

lemma unquote_escapeString: "unquote (escapeString s) = Some (ToValidUTF8 s)"
proof (induction "length s" arbitrary: s rule: less_induct)
  case less
  show ?case
  proof (cases s)
    case Nil
    then show ?thesis by simp
  next
    case (Cons c cs)
    from escape_step [of c cs] obtain p q t where
      e: "escapeString (c # cs) = p @ escapeString t" and v: "ToValidUTF8 (c # cs) = q @ ToValidUTF8 t"
      and l: "length t \<le> length cs" and u: "unquotes p q"
      by blast
    from l Cons have "length t < length s" by simp
    from less [OF this] have IH: "unquote (escapeString t) = Some (ToValidUTF8 t)" .
    from u have "unquote (p @ escapeString t) = map_option ((@) q) (unquote (escapeString t))"
      by (simp add: unquotes_def)
    with IH e v Cons show ?thesis by simp
  qed
qed

lemma ValidString_ToValidUTF8: "ValidString s \<Longrightarrow> ToValidUTF8 s = s"
proof (induction "length s" arbitrary: s rule: less_induct)
  case less
  show ?case
  proof (cases s)
    case Nil
    then show ?thesis by simp
  next
    case (Cons c cs)
    obtain r sz where d: "DecodeRune (c # cs) = (r, sz)" by (cases "DecodeRune (c # cs)")
    from less.prems Cons d have ok: "\<not> (r = RuneError \<and> sz = 1)"
      and v: "ValidString (drop (sz - 1) cs)"
      by (auto simp del: DecodeRune.simps split: if_splits)
    have "length (drop (sz - 1) cs) < length s" using Cons by simp
    from less.hyps [OF this v] have IH: "ToValidUTF8 (drop (sz - 1) cs) = drop (sz - 1) cs" .
    from DecodeRune_size [OF d] have "take sz (c # cs) = c # take (sz - 1) cs"
      by (cases sz) simp_all
    with ToValidUTF8_valid [OF d ok] IH Cons show ?thesis by simp
  qed
qed

lemma chars_distinct:
  "\<not> isSpace dquote" "dquote \<noteq> CHR ''{''" "dquote \<noteq> CHR ''}''" "dquote \<noteq> CHR ''[''"
  "dquote \<noteq> CHR '']''" "dquote \<noteq> CHR '':''" "dquote \<noteq> CHR '',''"
  by (simp_all add: isSpace_def dquote_def)

lemma lex_appendString:
  "lex (appendString s @ rest) = map_option ((#) (TString (ToValidUTF8 s))) (lex rest)"
  using chars_distinct
  by (simp add: appendString_def scanString_escapeString unquote_escapeString)

subsection \<open>The text of an entity as tokens\<close>

lemma lexes_Nil: "lexes [] []"
  by (simp add: lexes_def split: option.splits)

lemma lexes_append: "lexes s1 t1 \<Longrightarrow> lexes s2 t2 \<Longrightarrow> lexes (s1 @ s2) (t1 @ t2)"
  by (simp add: lexes_def split: option.splits)

lemma lexes_appendString: "lexes (appendString s) [TString (ToValidUTF8 s)]"
  by (simp add: lexes_def lex_appendString split: option.splits)

lemmas lex_eval = isSpace_def dquote_def backslash_def isDigit_def between_def byte_def
  simpleEscape_def

lemma lexes_punct:
  "lexes ''['' [LBracket]" "lexes '']'' [RBracket]" "lexes ''}'' [RBrace]" "lexes '','' [Comma]"
  by (simp_all add: lexes_def lex_eval split: option.splits)

lemma lexes_literals:
  "lexes ''null'' [TNull]" "lexes ''true'' [TTrue]" "lexes ''false'' [TFalse]"
  by (simp_all add: lexes_def lex_eval split: option.splits)

lemma lexes_keys:
  \<open>lexes ''{"value":'' [LBrace, TString ''value'', Colon]\<close>
  \<open>lexes '',"expressions":'' [Comma, TString ''expressions'', Colon]\<close>
  \<open>lexes ''{"builtin":'' [LBrace, TString ''builtin'', Colon]\<close>
  \<open>lexes '',"doc":'' [Comma, TString ''doc'', Colon]\<close>
  \<open>lexes '',"id":'' [Comma, TString ''id'', Colon]\<close>
  \<open>lexes '',"Values":'' [Comma, TString ''Values'', Colon]\<close>
  by (simp_all add: lexes_def lex_eval split: option.splits)

lemma lexes_commaSep:
  assumes "\<And>x. x \<in> set xs \<Longrightarrow> lexes (enc x) (tk x)"
  shows "lexes (commaSep (map enc xs)) (sepBy (map tk xs))"
  using assms
proof (induction xs rule: induct_list012)
  case 1
  show ?case by (simp add: lexes_Nil)
next
  case (2 x)
  then show ?case by simp
next
  case (3 x y zs)
  have a: "lexes (enc x) (tk x)" using 3(3) by simp
  have b: "lexes (commaSep (map enc (y # zs))) (sepBy (map tk (y # zs)))" using 3 by simp
  from lexes_append [OF a lexes_append [OF lexes_punct(4) b]] show ?case by simp
qed

lemma lexes_slice:
  assumes "\<And>x. lexes (enc x) (tk x)"
  shows "lexes (encode_slice enc xs) (tk_slice tk xs)"
proof (cases xs)
  case None
  then show ?thesis by (simp add: encode_slice_def tk_slice_def lexes_literals)
next
  case (Some ys)
  have "lexes (''['' @ commaSep (map enc ys) @ '']'') ([LBracket] @ sepBy (map tk ys) @ [RBracket])"
    by (intro lexes_append lexes_punct lexes_commaSep assms)
  with Some show ?thesis by (simp add: encode_slice_def tk_slice_def)
qed

lemma lexes_string: "lexes (appendString s) (tk_string s)"
  by (simp add: tk_string_def lexes_appendString)

lemma lexes_bool: "lexes (encode_bool b) [if b then TTrue else TFalse]"
  by (simp add: encode_bool_def lexes_literals)

lemma lexes_EntityValue: "lexes (encode_EntityValue v) (tk_EntityValue v)"
  unfolding encode_EntityValue_def tk_EntityValue_def
  by (intro lexes_append lexes_keys lexes_string lexes_slice lexes_punct)

lemma lexes_Entity: "lexes (encode_Entity e) (tk_Entity e)"
  unfolding encode_Entity_def tk_Entity_def
  by (intro lexes_append lexes_keys lexes_string lexes_slice lexes_punct lexes_bool
      lexes_EntityValue)

lemma lex_encode_Entity: "lex (encode_Entity e) = Some (tk_Entity e)"
proof -
  from lexes_Entity [of e]
  have "lex (encode_Entity e @ []) = (case lex [] of None \<Rightarrow> None | Some us \<Rightarrow> Some (tk_Entity e @ us))"
    unfolding lexes_def by blast
  then show ?thesis by simp
qed

subsection \<open>The tokens of an entity as a value\<close>

text \<open>
  The parse stack reads the tokens of an array or object as that array or object, as
  long as the nesting stays within the scanner's limit.
\<close>

lemma yieldsD:
  "yields d ts j \<Longrightarrow> wantsValue e \<Longrightarrow> length stk + d \<le> maxNestingDepth \<Longrightarrow>
   run (Expecting e stk) (ts @ rest) = run (deliver j stk) rest"
  by (simp add: yields_def)

lemma yields_mono: "yields d ts j \<Longrightarrow> d \<le> d' \<Longrightarrow> yields d' ts j"
  by (simp add: yields_def)

lemma yields_scalar:
  "yields 0 [TString s] (JString s)" "yields 0 [TNull] JNull"
  "yields 0 [TTrue] (JBool True)" "yields 0 [TFalse] (JBool False)"
  by (auto simp: yields_def wantsValue_def)

lemma wants: "wantsValue ExpValue" "wantsValue ExpValueOrEnd"
  by (simp_all add: wantsValue_def)

lemma array_elems:
  assumes "\<And>p. p \<in> set ps \<Longrightarrow> yields d (fst p) (snd p)" "ps \<noteq> []" "wantsValue e"
    "Suc (length stk) + d \<le> maxNestingDepth"
  shows "run (Expecting e (ArrayFrame acc # stk)) (sepBy (map fst ps) @ RBracket # rest)
         = run (deliver (JArray (rev acc @ map snd ps)) stk) rest"
  using assms
proof (induction ps arbitrary: acc e rule: induct_list012)
  case 1
  then show ?case by simp
next
  case (2 p)
  have y: "yields d (fst p) (snd p)" using 2(1) by simp
  have "run (Expecting e (ArrayFrame acc # stk)) (fst p @ RBracket # rest)
        = run (deliver (snd p) (ArrayFrame acc # stk)) (RBracket # rest)"
    using yieldsD [OF y 2(3)] 2(4) by simp
  then show ?case by simp
next
  case (3 p q ps)
  have y: "yields d (fst p) (snd p)" using 3(3) by simp
  have s: "run (Expecting e (ArrayFrame acc # stk)) (fst p @ Comma # sepBy (map fst (q # ps)) @ RBracket # rest)
        = run (deliver (snd p) (ArrayFrame acc # stk)) (Comma # sepBy (map fst (q # ps)) @ RBracket # rest)"
    using yieldsD [OF y 3(5)] 3(6) by simp
  have "run (Expecting ExpValue (ArrayFrame (snd p # acc) # stk)) (sepBy (map fst (q # ps)) @ RBracket # rest)
        = run (deliver (JArray (rev (snd p # acc) @ map snd (q # ps))) stk) rest"
    using 3(2) [where ?acc = "snd p # acc" and ?e = ExpValue] 3(3) 3(6) wants by simp
  with s show ?case by simp
qed

lemma yields_array:
  assumes "\<And>p. p \<in> set ps \<Longrightarrow> yields d (fst p) (snd p)"
  shows "yields (Suc d) (LBracket # sepBy (map fst ps) @ [RBracket]) (JArray (map snd ps))"
  unfolding yields_def
proof (intro allI impI)
  fix e :: expect and stk :: "frame list" and rest :: "token list"
  assume w: "wantsValue e" and l: "length stk + Suc d \<le> maxNestingDepth"
  then have lt: "length stk < maxNestingDepth" by simp
  show "run (Expecting e stk) ((LBracket # sepBy (map fst ps) @ [RBracket]) @ rest)
        = run (deliver (JArray (map snd ps)) stk) rest"
  proof (cases ps)
    case Nil
    with w lt show ?thesis by simp
  next
    case (Cons p ps')
    then have ne: "ps \<noteq> []" by simp
    from l have l': "Suc (length stk) + d \<le> maxNestingDepth" by simp
    from array_elems [OF assms ne wants(2) l', of "[]" rest] w lt show ?thesis by simp
  qed
qed

lemma object_members:
  assumes "\<And>m. m \<in> set ms \<Longrightarrow> yields d (fst (snd m)) (snd (snd m))" "ms \<noteq> []"
    "e = ExpKey \<or> e = ExpKeyOrEnd" "Suc (length stk) + d \<le> maxNestingDepth"
  shows "run (Expecting e (ObjectFrame acc k # stk)) (sepBy (map member_toks ms) @ RBrace # rest)
         = run (deliver (JObject (rev acc @ map member_json ms)) stk) rest"
  using assms
proof (induction ms arbitrary: acc e k rule: induct_list012)
  case 1
  then show ?case by simp
next
  case (2 m)
  have y: "yields d (fst (snd m)) (snd (snd m))" using 2(1) by simp
  have "run (Expecting ExpValue (ObjectFrame acc (fst m) # stk)) (fst (snd m) @ RBrace # rest)
        = run (deliver (snd (snd m)) (ObjectFrame acc (fst m) # stk)) (RBrace # rest)"
    using yieldsD [OF y wants(1)] 2(4) by simp
  with 2(3) show ?case by (auto simp: member_toks_def member_json_def)
next
  case (3 m n ms)
  have y: "yields d (fst (snd m)) (snd (snd m))" using 3(3) by simp
  have s: "run (Expecting ExpValue (ObjectFrame acc (fst m) # stk))
             (fst (snd m) @ Comma # sepBy (map member_toks (n # ms)) @ RBrace # rest)
        = run (deliver (snd (snd m)) (ObjectFrame acc (fst m) # stk))
             (Comma # sepBy (map member_toks (n # ms)) @ RBrace # rest)"
    using yieldsD [OF y wants(1)] 3(6) by simp
  have "run (Expecting ExpKey (ObjectFrame (member_json m # acc) (fst m) # stk))
           (sepBy (map member_toks (n # ms)) @ RBrace # rest)
        = run (deliver (JObject (rev (member_json m # acc) @ map member_json (n # ms))) stk) rest"
    using 3(2) [where ?e = ExpKey and ?acc = "member_json m # acc" and ?k = "fst m"] 3(3) 3(6)
    by simp
  moreover have mt: "member_toks m = TString (fst m) # Colon # fst (snd m)"
    and mj: "(fst m, snd (snd m)) = member_json m"
    by (simp_all add: member_toks_def member_json_def)
  ultimately show ?case using s 3(5) by (auto simp: mt mj)
qed

lemma yields_object:
  assumes "\<And>m. m \<in> set ms \<Longrightarrow> yields d (fst (snd m)) (snd (snd m))"
  shows "yields (Suc d) (LBrace # sepBy (map member_toks ms) @ [RBrace]) (JObject (map member_json ms))"
  unfolding yields_def
proof (intro allI impI)
  fix e :: expect and stk :: "frame list" and rest :: "token list"
  assume w: "wantsValue e" and l: "length stk + Suc d \<le> maxNestingDepth"
  then have lt: "length stk < maxNestingDepth" by simp
  show "run (Expecting e stk) ((LBrace # sepBy (map member_toks ms) @ [RBrace]) @ rest)
        = run (deliver (JObject (map member_json ms)) stk) rest"
  proof (cases ms)
    case Nil
    with w lt show ?thesis by simp
  next
    case (Cons m ms')
    then have ne: "ms \<noteq> []" by simp
    from l have l': "Suc (length stk) + d \<le> maxNestingDepth" by simp
    from object_members [OF assms ne _ l', of ExpKeyOrEnd "[]" "[]" rest] w lt show ?thesis by simp
  qed
qed

lemma yields_string: "yields 0 (tk_string s) (js_string s)"
  by (simp add: tk_string_def js_string_def yields_scalar)

lemma yields_slice:
  assumes "\<And>x. yields d (tk x) (js x)"
  shows "yields (Suc d) (tk_slice tk xs) (js_slice js xs)"
proof (cases xs)
  case None
  then show ?thesis
    using yields_mono [OF yields_scalar(2), of "Suc d"] by (simp add: tk_slice_def js_slice_def)
next
  case (Some ys)
  have "yields (Suc d) (LBracket # sepBy (map fst (map (\<lambda>x. (tk x, js x)) ys)) @ [RBracket])
          (JArray (map snd (map (\<lambda>x. (tk x, js x)) ys)))"
    by (rule yields_array) (auto simp: assms)
  with Some show ?thesis by (simp add: tk_slice_def js_slice_def comp_def)
qed

lemma yields_EntityValue: "yields 2 (tk_EntityValue v) (js_EntityValue v)"
proof -
  let ?ms = "[(''value'', tk_string (Value v), js_string (Value v)),
              (''expressions'', tk_slice tk_string (Expressions v), js_slice js_string (Expressions v))]"
  have "yields (Suc 1) (LBrace # sepBy (map member_toks ?ms) @ [RBrace]) (JObject (map member_json ?ms))"
  proof (rule yields_object)
    fix m assume "m \<in> set ?ms"
    then show "yields 1 (fst (snd m)) (snd (snd m))"
      using yields_mono [OF yields_string, of 1] yields_slice [of 0 tk_string js_string, OF yields_string]
      by auto
  qed
  then show ?thesis
    by (simp add: tk_EntityValue_def js_EntityValue_def member_toks_def member_json_def
        numeral_2_eq_2)
qed

lemma yields_Entity: "yields 4 (tk_Entity e) (js_Entity e)"
proof -
  let ?ms = "[(''builtin'', [if Builtin e then TTrue else TFalse], JBool (Builtin e)),
              (''doc'', tk_string (Doc e), js_string (Doc e)),
              (''id'', tk_string (Id' e), js_string (Id' e)),
              (''Values'', tk_slice tk_EntityValue (Values e), js_slice js_EntityValue (Values e))]"
  have b: "yields 0 [if Builtin e then TTrue else TFalse] (JBool (Builtin e))"
    using yields_scalar(3,4) by (cases "Builtin e") simp_all
  have "yields (Suc 3) (LBrace # sepBy (map member_toks ?ms) @ [RBrace]) (JObject (map member_json ?ms))"
  proof (rule yields_object)
    fix m assume "m \<in> set ?ms"
    then show "yields 3 (fst (snd m)) (snd (snd m))"
      using yields_mono [OF yields_string, of 3] yields_mono [OF b, of 3]
        yields_slice [of 2 tk_EntityValue js_EntityValue, OF yields_EntityValue]
      by (auto simp: numeral_3_eq_3)
  qed
  then show ?thesis
    by (simp add: tk_Entity_def js_Entity_def member_toks_def member_json_def)
qed

lemma parse_encode_Entity: "parse (encode_Entity e) = Some (js_Entity e)"
proof -
  have "run (Expecting ExpValue []) (tk_Entity e @ []) = run (deliver (js_Entity e) []) []"
    by (rule yieldsD [OF yields_Entity wants(1)]) (simp add: maxNestingDepth_def)
  then show ?thesis by (simp add: parse_def lex_encode_Entity)
qed

subsection \<open>The value as an entity\<close>

lemma store_js_string: "store_string (js_string s) (x, saved) = (ToValidUTF8 s, saved)"
  by (simp add: store_string_def js_string_def)

lemma store_elems_js:
  assumes "\<And>x old saved. store (js x) (old, saved) = (f x, saved)"
  shows "store_elems store zero (map js xs) old saved = (map f xs, saved)"
  by (induction xs arbitrary: old) (simp_all add: assms)

lemma store_js_slice:
  assumes "\<And>x old saved. store (js x) (old, saved) = (f x, saved)"
  shows "store_slice store zero ty (js_slice js xs) (old, saved) = (map_option (map f) xs, saved)"
  by (cases xs) (simp_all add: store_slice_def js_slice_def store_elems_js [of store js f, OF assms])

lemma store_js_EntityValue:
  "store_EntityValue (js_EntityValue v) (old, saved) = (sanitizeEntityValue v, saved)"
  by (simp add: store_EntityValue_def js_EntityValue_def store_member_EntityValue_def
      findField_def store_js_string
      store_js_slice [of store_string js_string ToValidUTF8, OF store_js_string]
      sanitizeEntityValue_def)

lemma store_js_Entity:
  "store_Entity (js_Entity e) (old, saved) = (sanitizeEntity e, saved)"
  by (simp add: store_Entity_def js_Entity_def store_member_Entity_def findField_def
      store_js_string store_bool_def
      store_js_slice [of store_EntityValue js_EntityValue sanitizeEntityValue,
        OF store_js_EntityValue]
      sanitizeEntity_def)

lemma json_Unmarshal_encode_Entity:
  "json_Unmarshal_Entity (Some (encode_Entity e)) v = (sanitizeEntity e, None)"
  by (simp add: json_Unmarshal_Entity_def content_def parse_encode_Entity store_js_Entity)

lemma sanitize_valid_EntityValue: "validEntityValue v \<Longrightarrow> sanitizeEntityValue v = v"
  by (cases "Expressions v")
    (simp_all add: validEntityValue_def sanitizeEntityValue_def ValidString_ToValidUTF8
      list_all_iff map_idI)

lemma sanitize_valid_Entity: "validEntity e \<Longrightarrow> sanitizeEntity e = e"
  by (cases "Values e")
    (simp_all add: validEntity_def sanitizeEntity_def ValidString_ToValidUTF8
      sanitize_valid_EntityValue list_all_iff map_idI)

lemma bytes_eq: "map byte xs = map byte ys \<Longrightarrow> xs = ys"
proof -
  have "inj byte" by (simp add: byte_def inj_on_def)
  then show "map byte xs = map byte ys \<Longrightarrow> xs = ys" by (simp add: inj_map_eq_map)
qed

lemma EncodeRune_RuneError: "EncodeRune RuneError = [CHR 0xEF, CHR 0xBF, CHR 0xBD]"
  by (rule bytes_eq) (simp add: EncodeRune_def encode3_def RuneError_def MaxRune_def byte_def)

text \<open>What the parse helper makes of a marshalled entity, for every entity.\<close>

lemma parseEntity_Marshal:
  "parseEntity go (fst (Marshal go (EntityPtr (Some e)))) = (Some (sanitizeEntity e), None)"
  by (simp add: parseEntity_def go_def json_Marshal_def json_Unmarshal_encode_Entity)

text \<open>
  Claim C7, as amended.  For every Entity whose strings (\<^verbatim>\<open>Doc\<close>, \<^verbatim>\<open>Id\<close>, every value and
  every expression) are valid UTF-8, marshalling it with \<^verbatim>\<open>json.Marshal\<close> and parsing the
  bytes with \<^verbatim>\<open>parseEntity\<close> yields, with no error, an Entity equal to the original in
  \<^verbatim>\<open>Builtin\<close>, \<^verbatim>\<open>Doc\<close>, \<^verbatim>\<open>Id\<close> and \<^verbatim>\<open>Values\<close>.
\<close>

theorem Entity_round_trip:
  assumes "validEntity e"
  shows "parseEntity go (fst (Marshal go (EntityPtr (Some e)))) = (Some e, None)"
  using sanitize_valid_Entity [OF assms] by (simp add: parseEntity_Marshal)

text \<open>The round trip of an entity with two values, one of them without expressions.\<close>

theorem Entity_round_trip_witness:
  "validEntity favorite_city
   \<and> parseEntity go (fst (Marshal go (EntityPtr (Some favorite_city)))) = (Some favorite_city, None)"
proof -
  have v: "validEntity favorite_city"
    by (simp add: favorite_city_def validEntity_def validEntityValue_def byte_def is_cont_def
        RuneError_def Let_def)
  from v Entity_round_trip [OF v] show ?thesis by simp
qed

text \<open>
  Claim C7 as worded covers every Entity with a well-formed value list.  A \<^verbatim>\<open>Doc\<close> that
  is not valid UTF-8 does not come back: the byte FF is written as the escape of U+FFFD
  and read as the three bytes EF BF BD.
\<close>

theorem invalid_UTF8_is_not_round_tripped:
  "parseEntity go (fst (Marshal go (EntityPtr (Some mangled)))) =
     (Some (mangled\<lparr>Doc := [CHR 0xEF, CHR 0xBF, CHR 0xBD]\<rparr>), None)
   \<and> Doc mangled \<noteq> [CHR 0xEF, CHR 0xBF, CHR 0xBD]"
  by (simp add: parseEntity_Marshal mangled_def sanitizeEntity_def sanitizeEntityValue_def
      byte_def RuneError_def Let_def EncodeRune_RuneError [unfolded RuneError_def])

end
